theory Spec2Isabelle
  imports Complex_Main "HOL-Library.Multiset"
begin

section \<open>CloudFlareManager.ts: DNS reconciliation, health aggregation, readiness\<close>

text \<open>
  The remote provider is an external collaborator. Every read is modelled by the response
  it gives (\<open>error + 'a\<close>, \<open>Inl\<close> for a rejected promise), every write by an outcome
  oracle, and a function that writes returns the trace of the write calls it attempted
  next to its result. A thrown value is either a JavaScript \<open>Error\<close> with its message or some
  other value; the source tells them apart with \<open>instanceof Error\<close>.
\<close>

subsection \<open>Errors and JavaScript helpers\<close>

datatype error = Error string | Thrown

definition error_message :: "error \<Rightarrow> string" where
  \<comment> \<open>\<^verbatim>\<open>error instanceof Error ? error.message : 'Unknown error'\<close>\<close>
  "error_message e = (case e of Error m \<Rightarrow> m | Thrown \<Rightarrow> ''Unknown error'')"

definition js_or :: "string option \<Rightarrow> string option \<Rightarrow> string option" where
  \<comment> \<open>\<^verbatim>\<open>a || b\<close> on optional strings: \<open>undefined\<close> and the empty string are falsy\<close>
  "js_or a b = (case a of None \<Rightarrow> b | Some s \<Rightarrow> if s = [] then b else Some s)"

fun join :: "string \<Rightarrow> string list \<Rightarrow> string" where
  "join sep [] = []"
| "join sep [x] = x"
| "join sep (x # y # ys) = x @ sep @ join sep (y # ys)"

fun digits :: "nat \<Rightarrow> nat \<Rightarrow> string" where
  \<comment> \<open>decimal digits of a number, most significant first; the first argument bounds the length\<close>
  "digits 0 n = []"
| "digits (Suc k) n =
     (if n < 10 then [char_of (48 + n)] else digits k (n div 10) @ [char_of (48 + n mod 10)])"

definition show_nat :: "nat \<Rightarrow> string" where
  \<comment> \<open>a length inside a template literal\<close>
  "show_nat n = digits (Suc n) n"

subsection \<open>DNS records and issues\<close>

text \<open>
  An expected record is \<^verbatim>\<open>{name, type, content, proxied?, ttl?}\<close>; an observed
  \<^verbatim>\<open>DnsRecord\<close> has \<open>proxied\<close> and \<open>ttl\<close> always (only the fields the reconciliation
  reads are kept). A ttl is a whole number of seconds.
\<close>

record ExpectedRecord =
  e_name :: string
  e_type :: string
  e_content :: string
  e_proxied :: "bool option"
  e_ttl :: "int option"

record DnsRecord =
  r_id :: string
  r_name :: string
  r_type :: string
  r_content :: string
  r_proxied :: bool
  r_ttl :: int

datatype issue_type = missing | incorrect | extra

datatype issue_record = expected_record ExpectedRecord | existing_record DnsRecord

record Issue =
  i_type :: issue_type
  i_record :: issue_record
  i_expected :: "ExpectedRecord option"
  i_action :: string

datatype write_call =
    createDnsRecord ExpectedRecord string
  | updateDnsRecord string ExpectedRecord string
  | createPagesProject string

type_synonym trace = "(write_call \<times> bool) list"

definition attempt :: "(nat \<Rightarrow> bool) \<Rightarrow> write_call \<Rightarrow> trace \<Rightarrow> trace" where
  \<comment> \<open>a write inside \<^verbatim>\<open>try { await ... } catch { log }\<close>: it is attempted, its outcome is
      logged, and the caller goes on either way\<close>
  "attempt ok c tr = tr @ [(c, ok (length tr))]"

record ValidationResult =
  valid :: bool
  issues :: "Issue list"
  fixed :: bool

subsection \<open>validateAndFixDnsRecords: the loop over the expected records\<close>

definition find_existing :: "DnsRecord list \<Rightarrow> ExpectedRecord \<Rightarrow> DnsRecord option" where
  \<comment> \<open>\<^verbatim>\<open>existingRecords.find((r) => r.name === expected.name && r.type === expected.type)\<close>\<close>
  "find_existing existingRecords expected =
     List.find (\<lambda>r. r_name r = e_name expected \<and> r_type r = e_type expected) existingRecords"

definition differs :: "DnsRecord \<Rightarrow> ExpectedRecord \<Rightarrow> bool" where
  \<comment> \<open>\<^verbatim>\<open>existing.content !== expected.content ||
      existing.proxied !== (expected.proxied ?? false) ||
      (expected.ttl && existing.ttl !== expected.ttl)\<close>; a ttl of 0 is falsy\<close>
  "differs existing expected \<longleftrightarrow>
     r_content existing \<noteq> e_content expected \<or>
     r_proxied existing \<noteq> (case e_proxied expected of None \<Rightarrow> False | Some b \<Rightarrow> b) \<or>
     (case e_ttl expected of None \<Rightarrow> False | Some t \<Rightarrow> t \<noteq> 0 \<and> r_ttl existing \<noteq> t)"

definition check_record ::
  "bool \<Rightarrow> string \<Rightarrow> (nat \<Rightarrow> bool) \<Rightarrow> DnsRecord list \<Rightarrow> Issue list \<times> trace \<Rightarrow> ExpectedRecord
     \<Rightarrow> Issue list \<times> trace" where
  \<comment> \<open>the body of \<^verbatim>\<open>for (const expected of expectedRecords)\<close>\<close>
  "check_record autoFix zone ok existingRecords st expected =
     (case find_existing existingRecords expected of
        None \<Rightarrow>
          (fst st @ [\<lparr>i_type = missing, i_record = expected_record expected, i_expected = None,
                      i_action = (if autoFix then ''CREATE'' else ''REQUIRES_CREATION'')\<rparr>],
           if autoFix then attempt ok (createDnsRecord expected zone) (snd st) else snd st)
      | Some existing \<Rightarrow>
          if differs existing expected then
            (fst st @ [\<lparr>i_type = incorrect, i_record = existing_record existing,
                        i_expected = Some expected,
                        i_action = (if autoFix then ''UPDATE'' else ''REQUIRES_UPDATE'')\<rparr>],
             if autoFix then attempt ok (updateDnsRecord (r_id existing) expected zone) (snd st)
             else snd st)
          else st)"

fun check_records ::
  "bool \<Rightarrow> string \<Rightarrow> (nat \<Rightarrow> bool) \<Rightarrow> DnsRecord list \<Rightarrow> Issue list \<times> trace \<Rightarrow> ExpectedRecord list
     \<Rightarrow> Issue list \<times> trace" where
  "check_records autoFix zone ok existingRecords st [] = st"
| "check_records autoFix zone ok existingRecords st (expected # rest) =
     check_records autoFix zone ok existingRecords
       (check_record autoFix zone ok existingRecords st expected) rest"

subsection \<open>The remote provider\<close>

record Worker =
  w_name :: string

record PagesProject =
  p_name :: string
  p_domains :: "string list option"

record Zone =
  z_id :: string

record Certificate =
  c_id :: string

text \<open>
  The remote state seen during one operation: the configured zone, the response of every
  endpoint the operations read (one response for each endpoint during an operation), and
  the outcome of the n-th DNS write. Responses are well-typed values or errors.
\<close>

record remote =
  config_zoneId :: "string option"
  get_dns_records :: "string \<Rightarrow> error + DnsRecord list"
  write_ok :: "nat \<Rightarrow> bool"
  get_workers :: "error + Worker list"
  get_worker :: "string \<Rightarrow> error + Worker"
  get_pages_projects :: "error + PagesProject list"
  get_pages_project :: "string \<Rightarrow> error + PagesProject"
  post_pages_project :: "string \<Rightarrow> error + PagesProject"
  get_zones :: "error + Zone list"
  get_certificate_packs :: "string \<Rightarrow> error + Certificate list"

definition with_zone :: "remote \<Rightarrow> string option \<Rightarrow> (string \<Rightarrow> error + 'a) \<Rightarrow> error + 'a" where
  \<comment> \<open>\<^verbatim>\<open>const zone = zoneId || this.config.zoneId; if (!zone) throw new Error('Zone ID is required')\<close>\<close>
  "with_zone r zoneId k =
     (case js_or zoneId (config_zoneId r) of
        None \<Rightarrow> Inl (Error ''Zone ID is required'')
      | Some zone \<Rightarrow> if zone = [] then Inl (Error ''Zone ID is required'') else k zone)"

definition listDnsRecords :: "remote \<Rightarrow> string option \<Rightarrow> error + DnsRecord list" where
  "listDnsRecords r zoneId = with_zone r zoneId (get_dns_records r)"

definition listCertificates :: "remote \<Rightarrow> string option \<Rightarrow> error + Certificate list" where
  "listCertificates r zoneId = with_zone r zoneId (get_certificate_packs r)"

definition listWorkers :: "remote \<Rightarrow> error + Worker list" where
  "listWorkers r = get_workers r"

definition listPagesProjects :: "remote \<Rightarrow> error + PagesProject list" where
  "listPagesProjects r = get_pages_projects r"

definition listZones :: "remote \<Rightarrow> error + Zone list" where
  "listZones r = get_zones r"

definition getPagesProject :: "remote \<Rightarrow> string \<Rightarrow> error + PagesProject" where
  "getPagesProject r projectName = get_pages_project r projectName"

definition getWorker :: "remote \<Rightarrow> string \<Rightarrow> error + Worker" where
  "getWorker r scriptName = get_worker r scriptName"

definition or_empty :: "error + 'a list \<Rightarrow> 'a list" where
  \<comment> \<open>\<^verbatim>\<open>.catch(() => [])\<close>\<close>
  "or_empty p = (case p of Inl e \<Rightarrow> [] | Inr xs \<Rightarrow> xs)"

subsection \<open>validateAndFixDnsRecords: the call\<close>

definition validateAndFixDnsRecords ::
  "remote \<Rightarrow> ExpectedRecord list \<Rightarrow> string option \<Rightarrow> bool \<Rightarrow> error + ValidationResult \<times> trace" where
  "validateAndFixDnsRecords r expectedRecords zoneId autoFix =
     with_zone r zoneId (\<lambda>zone.
       case listDnsRecords r (Some zone) of
         Inl e \<Rightarrow> Inl e
       | Inr existingRecords \<Rightarrow>
           (let st = check_records autoFix zone (write_ok r) existingRecords ([], [])
                      expectedRecords
            in Inr (\<lparr>valid = (length (fst st) = 0), issues = fst st,
                      fixed = (autoFix \<and> length (fst st) > 0)\<rparr>, snd st)))"

subsection \<open>comprehensiveHealthCheck\<close>

datatype health = healthy | degraded | unhealthy

record Service =
  s_status :: health
  s_count :: nat

record Services =
  sv_workers :: Service
  sv_pages :: Service
  sv_dns :: Service
  sv_ssl :: Service

record Environments =
  production_frontend :: bool
  production_api :: bool
  staging_frontend :: bool
  staging_api :: bool

record HealthCheck =
  h_status :: health
  h_services :: Services
  h_environments :: Environments

definition checkWorkerHealth :: "remote \<Rightarrow> string \<Rightarrow> bool" where
  "checkWorkerHealth r scriptName = (case getWorker r scriptName of Inl e \<Rightarrow> False | Inr w \<Rightarrow> True)"

definition checkPagesHealth :: "remote \<Rightarrow> string \<Rightarrow> bool" where
  "checkPagesHealth r projectName =
     (case getPagesProject r projectName of Inl e \<Rightarrow> False | Inr p \<Rightarrow> True)"

definition values_of :: "Services \<Rightarrow> Service list" where
  \<comment> \<open>\<^verbatim>\<open>Object.values(services)\<close>, in the order the object literal lists them\<close>
  "values_of s = [sv_workers s, sv_pages s, sv_dns s, sv_ssl s]"

definition aggregate :: "Service list \<Rightarrow> health" where
  \<comment> \<open>"Determine overall status"\<close>
  "aggregate svcs =
     (let unhealthyServices = length (filter (\<lambda>s. s_status s = unhealthy) svcs);
          degradedServices = length (filter (\<lambda>s. s_status s = degraded) svcs)
      in if unhealthyServices > 0 then unhealthy
         else if degradedServices > 0 then degraded
         else healthy)"

definition make_services ::
  "Worker list \<Rightarrow> PagesProject list \<Rightarrow> DnsRecord list \<Rightarrow> Certificate list \<Rightarrow> Services" where
  "make_services workers pages dnsRecords certificates =
     \<lparr>sv_workers = \<lparr>s_status = (if length workers > 0 then healthy else unhealthy),
                     s_count = length workers\<rparr>,
      sv_pages = \<lparr>s_status = (if length pages > 0 then healthy else unhealthy),
                   s_count = length pages\<rparr>,
      sv_dns = \<lparr>s_status = (if length dnsRecords > 0 then healthy else unhealthy),
                 s_count = length dnsRecords\<rparr>,
      sv_ssl = \<lparr>s_status = (if length certificates > 0 then healthy else degraded),
                 s_count = length certificates\<rparr>\<rparr>"

definition comprehensiveHealthCheck :: "remote \<Rightarrow> error + HealthCheck" where
  \<comment> \<open>\<^verbatim>\<open>Promise.all\<close> rejects as soon as one of its promises does; which rejection surfaces
      when several reads fail depends on timing, and the array order is taken here. The
      \<^verbatim>\<open>catch\<close> block rethrows.\<close>
  "comprehensiveHealthCheck r =
     (case listWorkers r of
        Inl e \<Rightarrow> Inl e
      | Inr workers \<Rightarrow>
     (case listPagesProjects r of
        Inl e \<Rightarrow> Inl e
      | Inr pages \<Rightarrow>
     (case listZones r of
        Inl e \<Rightarrow> Inl e
      | Inr zones \<Rightarrow>
          (let certificates = or_empty (listCertificates r None);
               dnsRecords = or_empty (listDnsRecords r None);
               productionFrontend = checkPagesHealth r ''connectree'';
               productionApi = checkWorkerHealth r ''connectree-api'';
               stagingFrontend = checkPagesHealth r ''connectree'';
               stagingApi = checkWorkerHealth r ''connectree-api-staging'';
               services = make_services workers pages dnsRecords certificates
           in Inr \<lparr>h_status = aggregate (values_of services), h_services = services,
                    h_environments =
                      \<lparr>production_frontend = productionFrontend, production_api = productionApi,
                       staging_frontend = stagingFrontend, staging_api = stagingApi\<rparr>\<rparr>))))"

subsection \<open>validateConnectreeInfrastructure\<close>

definition cname :: "string \<Rightarrow> string \<Rightarrow> ExpectedRecord" where
  \<comment> \<open>\<^verbatim>\<open>{name, type: 'CNAME', content, proxied: true, ttl: 1}\<close>\<close>
  "cname n c = \<lparr>e_name = n, e_type = ''CNAME'', e_content = c, e_proxied = Some True,
                e_ttl = Some 1\<rparr>"

definition expectedDnsRecords :: "ExpectedRecord list" where
  "expectedDnsRecords =
     [cname ''connectree.cc'' ''connectree.pages.dev'',
      cname ''www.connectree.cc'' ''connectree.pages.dev'',
      cname ''staging.connectree.cc'' ''connectree.pages.dev'',
      cname ''api.connectree.cc'' ''connectree-api.mehya-ashani.workers.dev'',
      cname ''api-staging.connectree.cc'' ''connectree-api-staging.mehya-ashani.workers.dev'']"

definition overall :: "bool \<Rightarrow> nat \<Rightarrow> bool \<Rightarrow> bool \<Rightarrow> bool \<Rightarrow> health" where
  \<comment> \<open>"Determine overall health", from \<^verbatim>\<open>dnsValidation.valid\<close>,
      \<^verbatim>\<open>dnsValidation.issues.length\<close>, \<^verbatim>\<open>pagesValid\<close>, \<^verbatim>\<open>workersValid\<close>, \<^verbatim>\<open>sslValid\<close>\<close>
  "overall dnsValid dnsIssues pagesValid workersValid sslValid =
     (if dnsValid \<and> pagesValid \<and> workersValid \<and> sslValid then healthy
      else if (\<not> dnsValid \<and> dnsIssues \<le> 2) \<or> \<not> sslValid then degraded
      else unhealthy)"

record Infrastructure =
  inf_dns_valid :: bool
  inf_dns_issues :: "Issue list"
  inf_pages_valid :: bool
  inf_pages_domains :: "string list"
  inf_workers_valid :: bool
  inf_workers :: "string list"
  inf_ssl_valid :: bool
  inf_ssl_certificates :: nat
  inf_overall :: health

definition validateConnectreeInfrastructure :: "remote \<Rightarrow> bool \<Rightarrow> error + Infrastructure \<times> trace" where
  \<comment> \<open>the four promises of \<^verbatim>\<open>Promise.all\<close>, taken in array order; the trace of the DNS writes
      is reported with a result only\<close>
  "validateConnectreeInfrastructure r autoFix =
     (case validateAndFixDnsRecords r expectedDnsRecords None autoFix of
        Inl e \<Rightarrow> Inl e
      | Inr (dnsValidation, tr) \<Rightarrow>
     (case listPagesProjects r of
        Inl e \<Rightarrow> Inl e
      | Inr pages \<Rightarrow>
     (case listWorkers r of
        Inl e \<Rightarrow> Inl e
      | Inr workers \<Rightarrow>
          (let certificates = or_empty (listCertificates r None);
               connectreeProject = List.find (\<lambda>p. p_name p = ''connectree'') pages;
               pagesValid =
                 (case connectreeProject of
                    None \<Rightarrow> False
                  | Some p \<Rightarrow> (case p_domains p of None \<Rightarrow> False | Some ds \<Rightarrow> length ds > 0));
               expectedWorkers = [''connectree-api'', ''connectree-api-staging''];
               existingWorkers = map w_name workers;
               workersValid = list_all (\<lambda>name. name \<in> set existingWorkers) expectedWorkers;
               sslValid = (length certificates > 0)
           in Inr (\<lparr>inf_dns_valid = valid dnsValidation,
                     inf_dns_issues = issues dnsValidation,
                     inf_pages_valid = pagesValid,
                     inf_pages_domains =
                       (case connectreeProject of
                          None \<Rightarrow> []
                        | Some p \<Rightarrow> (case p_domains p of None \<Rightarrow> [] | Some ds \<Rightarrow> ds)),
                     inf_workers_valid = workersValid,
                     inf_workers = existingWorkers,
                     inf_ssl_valid = sslValid,
                     inf_ssl_certificates = length certificates,
                     inf_overall = overall (valid dnsValidation) (length (issues dnsValidation))
                                     pagesValid workersValid sslValid\<rparr>, tr)))))"

subsection \<open>prepareDeploymentEnvironment\<close>

datatype environment = staging | production

record options =
  validateDns :: "bool option"
  autoFixDns :: "bool option"
  ensurePages :: "bool option"
  validateWorkers :: "bool option"

definition truthy :: "bool option \<Rightarrow> bool" where
  \<comment> \<open>an optional flag in a condition: \<open>undefined\<close> and \<open>false\<close> are falsy\<close>
  "truthy b = (case b of None \<Rightarrow> False | Some v \<Rightarrow> v)"

definition getExpectedDnsRecords :: "environment \<Rightarrow> ExpectedRecord list" where
  "getExpectedDnsRecords env =
     (let baseRecords =
            [cname ''connectree.cc'' ''connectree.pages.dev'',
             cname ''www.connectree.cc'' ''connectree.pages.dev'',
             cname ''api.connectree.cc'' ''connectree-api.mehya-ashani.workers.dev'']
      in if env = staging then
           baseRecords @
             [cname ''staging.connectree.cc'' ''connectree.pages.dev'',
              cname ''api-staging.connectree.cc''
                ''connectree-api-staging.mehya-ashani.workers.dev'']
         else baseRecords)"

record PagesCheck =
  pc_issues :: "string list"
  pc_exists :: bool
  pc_domains :: "string list"
  pc_trace :: trace

definition check_pages :: "remote \<Rightarrow> options \<Rightarrow> string \<Rightarrow> PagesCheck" where
  \<comment> \<open>"Check Pages project": the issues it pushes, \<^verbatim>\<open>pagesExists\<close>, \<^verbatim>\<open>pagesDomains\<close>\<close>
  "check_pages r opts expectedPages =
     (case getPagesProject r expectedPages of
        Inr project \<Rightarrow>
          \<lparr>pc_issues = [], pc_exists = True,
           pc_domains = (case p_domains project of None \<Rightarrow> [] | Some ds \<Rightarrow> ds), pc_trace = []\<rparr>
      | Inl e \<Rightarrow>
          if truthy (ensurePages opts) then
            (case post_pages_project r expectedPages of
               Inr created \<Rightarrow>
                 \<lparr>pc_issues = [], pc_exists = True, pc_domains = [],
                  pc_trace = [(createPagesProject expectedPages, True)]\<rparr>
             | Inl createError \<Rightarrow>
                 \<lparr>pc_issues = [''Failed to create Pages project '' @ [CHR 39] @ expectedPages
                                @ [CHR 39] @ '': '' @ error_message createError],
                  pc_exists = False, pc_domains = [],
                  pc_trace = [(createPagesProject expectedPages, False)]\<rparr>)
          else
            \<lparr>pc_issues = [''Pages project '' @ [CHR 39] @ expectedPages @ [CHR 39]
                           @ '' does not exist''],
             pc_exists = False, pc_domains = [], pc_trace = []\<rparr>)"

record WorkersCheck =
  wc_issues :: "string list"
  wc_warnings :: "string list"
  wc_valid :: bool
  wc_existing :: "string list"

definition check_workers :: "remote \<Rightarrow> string list \<Rightarrow> WorkersCheck" where
  \<comment> \<open>"Check Workers": the issues and warnings it pushes, \<^verbatim>\<open>workersValid\<close>,
      \<^verbatim>\<open>existingWorkers\<close>\<close>
  "check_workers r expectedWorkers =
     (case listWorkers r of
        Inr workers \<Rightarrow>
          (let existingWorkers = map w_name workers;
               missingWorkers = filter (\<lambda>name. name \<notin> set existingWorkers) expectedWorkers
           in if length missingWorkers = 0 then
                \<lparr>wc_issues = [], wc_warnings = [], wc_valid = True, wc_existing = existingWorkers\<rparr>
              else
                \<lparr>wc_issues = [],
                 wc_warnings = [''Missing workers: '' @ join '', '' missingWorkers],
                 wc_valid = False, wc_existing = existingWorkers\<rparr>)
      | Inl e \<Rightarrow>
          \<lparr>wc_issues = [''Failed to check workers: '' @ error_message e], wc_warnings = [],
           wc_valid = False, wc_existing = []\<rparr>)"

record DnsCheck =
  dc_issues :: "string list"
  dc_warnings :: "string list"
  dc_valid :: bool
  dc_dnsIssues :: "Issue list"
  dc_trace :: trace

definition check_dns :: "remote \<Rightarrow> environment \<Rightarrow> options \<Rightarrow> DnsCheck" where
  \<comment> \<open>"DNS Validation": the issues and warnings it pushes, \<^verbatim>\<open>dnsValid\<close>, \<^verbatim>\<open>dnsIssues\<close>\<close>
  "check_dns r env opts =
     (if truthy (validateDns opts) then
        (case validateAndFixDnsRecords r (getExpectedDnsRecords env) None
                (truthy (autoFixDns opts)) of
           Inr (dnsValidation, tr) \<Rightarrow>
             \<lparr>dc_issues = [],
              dc_warnings =
                (if \<not> valid dnsValidation \<and> \<not> truthy (autoFixDns opts) then
                   [''DNS issues found (use --fix to auto-repair): ''
                      @ show_nat (length (issues dnsValidation)) @ '' issues'']
                 else []),
              dc_valid = valid dnsValidation, dc_dnsIssues = issues dnsValidation,
              dc_trace = tr\<rparr>
         | Inl e \<Rightarrow>
             \<lparr>dc_issues = [''DNS validation failed: '' @ error_message e], dc_warnings = [],
              dc_valid = False, dc_dnsIssues = [], dc_trace = []\<rparr>)
      else
        \<lparr>dc_issues = [], dc_warnings = [], dc_valid = False, dc_dnsIssues = [], dc_trace = []\<rparr>)"

record Preparation =
  ready :: bool
  prep_issues :: "string list"
  prep_warnings :: "string list"
  prep_environment :: environment
  pages_exists :: bool
  pages_domains :: "string list"
  workers_exists :: bool
  workers_names :: "string list"
  dns_valid :: bool
  dns_issues :: "Issue list"

definition prepareDeploymentEnvironment ::
  "remote \<Rightarrow> environment \<Rightarrow> options \<Rightarrow> Preparation \<times> trace" where
  "prepareDeploymentEnvironment r env opts =
     (let expectedPages = ''connectree'';
          expectedWorkers =
            (if env = production then [''connectree-api''] else [''connectree-api-staging'']);
          pc = check_pages r opts expectedPages;
          wc = check_workers r expectedWorkers;
          dc = check_dns r env opts;
          issues = pc_issues pc @ wc_issues wc @ dc_issues dc;
          warnings = wc_warnings wc @ dc_warnings dc;
          ready = (length issues = 0 \<and> (if truthy (validateDns opts) then dc_valid dc else True))
      in (\<lparr>ready = ready, prep_issues = issues, prep_warnings = warnings,
            prep_environment = env,
            pages_exists = pc_exists pc, pages_domains = pc_domains pc,
            workers_exists = wc_valid wc, workers_names = wc_existing wc,
            dns_valid = dc_valid dc, dns_issues = dc_dnsIssues dc\<rparr>,
          pc_trace pc @ dc_trace dc))"

subsection \<open>generateDeploymentReport\<close>

datatype readiness_status = ready_status | issues_status | failed_status

definition Math_round :: "rat \<Rightarrow> int" where
  \<comment> \<open>\<^verbatim>\<open>Math.round\<close>: the nearest integer, a half rounded up\<close>
  "Math_round x = \<lfloor>x + 1 / 2\<rfloor>"

record Report =
  rep_environment :: environment
  rep_status :: readiness_status
  rep_readiness :: int
  rep_dns_valid :: bool
  rep_dns_issues :: "Issue list"
  rep_pages_exists :: bool
  rep_workers_exists :: bool
  rep_ssl :: Service
  rep_overall :: health
  rep_recommendations :: "string list"

definition passed_checks :: "bool \<Rightarrow> bool \<Rightarrow> bool \<Rightarrow> bool \<Rightarrow> nat" where
  \<comment> \<open>the four \<^verbatim>\<open>if (...) passedChecks++\<close>\<close>
  "passed_checks dnsValid pagesExists workersExists sslHealthy =
     (let passedChecks = 0;
          passedChecks = (if dnsValid then passedChecks + 1 else passedChecks);
          passedChecks = (if pagesExists then passedChecks + 1 else passedChecks);
          passedChecks = (if workersExists then passedChecks + 1 else passedChecks);
          passedChecks = (if sslHealthy then passedChecks + 1 else passedChecks)
      in passedChecks)"

definition readiness_of :: "nat \<Rightarrow> int" where
  \<comment> \<open>\<^verbatim>\<open>Math.round((passedChecks / totalChecks) * 100)\<close> with \<^verbatim>\<open>totalChecks = 4\<close>; the quotients
      of 0..4 by 4 and their products with 100 are exact in binary floating point\<close>
  "readiness_of passedChecks = (let totalChecks = 4 in
     Math_round ((of_nat passedChecks / totalChecks) * 100))"

definition status_of :: "int \<Rightarrow> readiness_status" where
  "status_of readiness =
     (if readiness \<ge> 100 then ready_status
      else if readiness \<ge> 75 then issues_status
      else failed_status)"

definition generateDeploymentReport :: "remote \<Rightarrow> remote \<Rightarrow> environment \<Rightarrow> error + Report" where
  \<comment> \<open>the first remote state is the one the preparation sees, the second the one the
      health check sees afterwards; with these options the preparation attempts no write.
      The timestamp is left out.\<close>
  "generateDeploymentReport r r' env =
     (let preparationResult =
            fst (prepareDeploymentEnvironment r env
                   \<lparr>validateDns = Some True, autoFixDns = Some False, ensurePages = Some False,
                    validateWorkers = Some True\<rparr>)
      in case comprehensiveHealthCheck r' of
           Inl e \<Rightarrow> Inl e
         | Inr healthCheck \<Rightarrow>
             (let ssl = sv_ssl (h_services healthCheck);
                  passedChecks =
                    passed_checks (dns_valid preparationResult) (pages_exists preparationResult)
                      (workers_exists preparationResult) (s_status ssl = healthy);
                  readiness = readiness_of passedChecks;
                  recommendations =
                    (if \<not> dns_valid preparationResult then
                       [''Run DNS validation with auto-fix: npx tsx CloudFlareManager.ts validate-dns --fix'']
                     else []) @
                    (if \<not> pages_exists preparationResult then
                       [''Ensure Pages project exists before deployment'']
                     else []) @
                    (if \<not> workers_exists preparationResult then
                       [''Deploy Workers before Pages to ensure API availability'']
                     else []) @
                    (if s_status ssl \<noteq> healthy then
                       [''Check SSL certificate status and renew if necessary'']
                     else [])
              in Inr \<lparr>rep_environment = env, rep_status = status_of readiness,
                       rep_readiness = readiness,
                       rep_dns_valid = dns_valid preparationResult,
                       rep_dns_issues = dns_issues preparationResult,
                       rep_pages_exists = pages_exists preparationResult,
                       rep_workers_exists = workers_exists preparationResult,
                       rep_ssl = ssl, rep_overall = h_status healthCheck,
                       rep_recommendations = recommendations\<rparr>))"

subsection \<open>The specification's reading\<close>

text \<open>
  The specification classifies every desired record on its own: the matching key is
  (name, type), the first observed record with that key is the match, and the record is
  unflagged, missing or incorrect. These definitions follow its words, with the ttl
  compared only when the desired one is set to a value other than 0; the theorems below
  compare them with the loop of the source.
\<close>

datatype classification = Unflagged | Missing | Incorrect

definition key_match :: "DnsRecord \<Rightarrow> ExpectedRecord \<Rightarrow> bool" where
  "key_match ob d \<longleftrightarrow> r_name ob = e_name d \<and> r_type ob = e_type d"

definition first_match :: "DnsRecord list \<Rightarrow> ExpectedRecord \<Rightarrow> DnsRecord option" where
  "first_match observed d =
     (case filter (\<lambda>ob. key_match ob d) observed of [] \<Rightarrow> None | m # rest \<Rightarrow> Some m)"

definition classify :: "DnsRecord list \<Rightarrow> ExpectedRecord \<Rightarrow> classification" where
  "classify observed d =
     (case first_match observed d of
        None \<Rightarrow> Missing
      | Some m \<Rightarrow>
          if r_content m \<noteq> e_content d
             \<or> r_proxied m \<noteq> (case e_proxied d of None \<Rightarrow> False | Some b \<Rightarrow> b)
             \<or> (case e_ttl d of None \<Rightarrow> False | Some t \<Rightarrow> t \<noteq> 0 \<and> r_ttl m \<noteq> t)
          then Incorrect else Unflagged)"

definition issue_for :: "bool \<Rightarrow> DnsRecord list \<Rightarrow> ExpectedRecord \<Rightarrow> Issue list" where
  "issue_for autoFix observed d =
     (case classify observed d of
        Unflagged \<Rightarrow> []
      | Missing \<Rightarrow>
          [\<lparr>i_type = missing, i_record = expected_record d, i_expected = None,
            i_action = (if autoFix then ''CREATE'' else ''REQUIRES_CREATION'')\<rparr>]
      | Incorrect \<Rightarrow>
          (case first_match observed d of
             None \<Rightarrow> []
           | Some m \<Rightarrow>
               [\<lparr>i_type = incorrect, i_record = existing_record m, i_expected = Some d,
                 i_action = (if autoFix then ''UPDATE'' else ''REQUIRES_UPDATE'')\<rparr>]))"

definition write_for :: "string \<Rightarrow> DnsRecord list \<Rightarrow> ExpectedRecord \<Rightarrow> write_call list" where
  "write_for zone observed d =
     (case classify observed d of
        Unflagged \<Rightarrow> []
      | Missing \<Rightarrow> [createDnsRecord d zone]
      | Incorrect \<Rightarrow>
          (case first_match observed d of
             None \<Rightarrow> []
           | Some m \<Rightarrow> [updateDnsRecord (r_id m) d zone]))"

definition issue_view :: "Issue \<Rightarrow> issue_type \<times> issue_record \<times> ExpectedRecord option" where
  "issue_view i = (i_type i, i_record i, i_expected i)"

definition same_record :: "DnsRecord \<Rightarrow> ExpectedRecord \<Rightarrow> bool" where
  \<comment> \<open>the observed record agrees with the desired one: name, type and content, the proxied
      flag (the desired one defaulted to false), and the ttl where the desired one is set\<close>
  "same_record ob d \<longleftrightarrow>
     r_name ob = e_name d \<and> r_type ob = e_type d \<and> r_content ob = e_content d
     \<and> r_proxied ob = (case e_proxied d of None \<Rightarrow> False | Some b \<Rightarrow> b)
     \<and> (case e_ttl d of None \<Rightarrow> True | Some t \<Rightarrow> r_ttl ob = t)"

definition matches_exactly :: "ExpectedRecord list \<Rightarrow> DnsRecord list \<Rightarrow> bool" where
  \<comment> \<open>"every desired record has an observed record with the same name, type, content,
      proxied flag, and ttl", all five fields being set and equal\<close>
  "matches_exactly desired observed \<longleftrightarrow>
     list_all (\<lambda>d. list_ex (\<lambda>ob. r_name ob = e_name d \<and> r_type ob = e_type d
                                 \<and> r_content ob = e_content d
                                 \<and> Some (r_proxied ob) = e_proxied d
                                 \<and> Some (r_ttl ob) = e_ttl d) observed) desired"

definition first_matches_exactly :: "ExpectedRecord list \<Rightarrow> DnsRecord list \<Rightarrow> bool" where
  \<comment> \<open>the first observed record with the key of a desired record agrees with it\<close>
  "first_matches_exactly desired observed \<longleftrightarrow>
     list_all (\<lambda>d. case first_match observed d of None \<Rightarrow> False | Some m \<Rightarrow> same_record m d)
       desired"

definition only_desired_keys :: "ExpectedRecord list \<Rightarrow> DnsRecord list \<Rightarrow> DnsRecord list" where
  \<comment> \<open>the observed records whose (name, type) appears in some desired record\<close>
  "only_desired_keys desired observed =
     filter (\<lambda>ob. list_ex (\<lambda>d. key_match ob d) desired) observed"

definition drop_extra :: "ExpectedRecord list \<Rightarrow> remote \<Rightarrow> remote" where
  \<comment> \<open>the same remote, returning only the observed records with a desired key\<close>
  "drop_extra desired r =
     r\<lparr>get_dns_records := \<lambda>zone. map_sum id (only_desired_keys desired) (get_dns_records r zone)\<rparr>"

definition expected_workers :: "environment \<Rightarrow> string list" where
  \<comment> \<open>the environment-specific expected set of compute deployments\<close>
  "expected_workers env =
     (if env = production then [''connectree-api''] else [''connectree-api-staging''])"

definition missing_workers :: "environment \<Rightarrow> Worker list \<Rightarrow> string list" where
  \<comment> \<open>the expected deployments that are not among the listed ones\<close>
  "missing_workers env workers =
     filter (\<lambda>name. name \<notin> set (map w_name workers)) (expected_workers env)"

definition checks_passed :: "Report \<Rightarrow> nat" where
  \<comment> \<open>how many of the four checks of a report pass\<close>
  "checks_passed rep =
     length (filter id [rep_dns_valid rep, rep_pages_exists rep, rep_workers_exists rep,
                        s_status (rep_ssl rep) = healthy])"

subsection \<open>Example inputs\<close>

definition remote_with ::
  "DnsRecord list \<Rightarrow> error + Worker list \<Rightarrow> error + PagesProject list \<Rightarrow> error + Certificate list
     \<Rightarrow> remote" where
  \<comment> \<open>a remote with zone \<open>zone-1\<close> configured, answering every read from the given lists\<close>
  "remote_with records workers pages certificates =
     \<lparr>config_zoneId = Some ''zone-1'',
      get_dns_records = (\<lambda>zone. Inr records),
      write_ok = (\<lambda>n. True),
      get_workers = workers,
      get_worker = (\<lambda>n. case List.find (\<lambda>w. w_name w = n) (or_empty workers) of
                           None \<Rightarrow> Inl (Error ''not found'') | Some w \<Rightarrow> Inr w),
      get_pages_projects = pages,
      get_pages_project = (\<lambda>n. case List.find (\<lambda>p. p_name p = n) (or_empty pages) of
                                  None \<Rightarrow> Inl (Error ''not found'') | Some p \<Rightarrow> Inr p),
      post_pages_project = (\<lambda>n. Inr \<lparr>p_name = n, p_domains = None\<rparr>),
      get_zones = Inr [\<lparr>z_id = ''zone-1''\<rparr>],
      get_certificate_packs = (\<lambda>zone. certificates)\<rparr>"

definition a_record :: "string \<Rightarrow> int \<Rightarrow> ExpectedRecord" where
  "a_record c t = \<lparr>e_name = ''a.example.com'', e_type = ''A'', e_content = c,
                   e_proxied = Some False, e_ttl = Some t\<rparr>"

definition observed_a :: "string \<Rightarrow> string \<Rightarrow> int \<Rightarrow> DnsRecord" where
  "observed_a i c t = \<lparr>r_id = i, r_name = ''a.example.com'', r_type = ''A'', r_content = c,
                       r_proxied = False, r_ttl = t\<rparr>"

definition observed_other :: DnsRecord where
  "observed_other = \<lparr>r_id = ''r9'', r_name = ''mail.example.com'', r_type = ''MX'',
                     r_content = ''mx.example.net'', r_proxied = False, r_ttl = 3600\<rparr>"

definition dns_remote :: "DnsRecord list \<Rightarrow> remote" where
  "dns_remote records = remote_with records (Inr []) (Inr []) (Inr [])"

definition svc :: "health \<Rightarrow> nat \<Rightarrow> Service" where
  "svc h n = \<lparr>s_status = h, s_count = n\<rparr>"

definition healthy_remote :: "error + Certificate list \<Rightarrow> remote" where
  "healthy_remote certificates =
     remote_with [observed_other]
       (Inr [\<lparr>w_name = ''connectree-api''\<rparr>, \<lparr>w_name = ''connectree-api-staging''\<rparr>])
       (Inr [\<lparr>p_name = ''connectree'', p_domains = Some [''connectree.cc'']\<rparr>])
       certificates"

definition pages_down_remote :: remote where
  "pages_down_remote =
     remote_with [observed_other] (Inr [\<lparr>w_name = ''connectree-api''\<rparr>])
       (Inl (Error ''fetch failed'')) (Inr [\<lparr>c_id = ''c1''\<rparr>])"

definition stray_worker_remote :: remote where
  "stray_worker_remote =
     remote_with [] (Inr [\<lparr>w_name = ''image-resizer''\<rparr>])
       (Inr [\<lparr>p_name = ''connectree'', p_domains = Some [''connectree.cc'']\<rparr>]) (Inr [])"

definition no_options :: options where
  "no_options = \<lparr>validateDns = None, autoFixDns = None, ensurePages = None,
                 validateWorkers = None\<rparr>"

definition one_certificate :: "error + Certificate list" where
  "one_certificate = Inr [\<lparr>c_id = ''c1''\<rparr>]"

section \<open>Properties\<close>

subsection \<open>The reconciliation loop\<close>

lemma find_existing_first_match: "find_existing observed d = first_match observed d"
  unfolding find_existing_def first_match_def key_match_def
  by (induction observed) auto

lemma fst_check_record:
  "fst (check_record autoFix zone ok observed st d) = fst st @ issue_for autoFix observed d"
  unfolding check_record_def issue_for_def classify_def differs_def
  by (simp add: find_existing_first_match split: option.splits)

lemma fst_check_records:
  "fst (check_records autoFix zone ok observed st ds)
     = fst st @ concat (map (issue_for autoFix observed) ds)"
  by (induction ds arbitrary: st) (simp_all add: fst_check_record)

lemma calls_check_record:
  "map fst (snd (check_record autoFix zone ok observed st d))
     = map fst (snd st) @ (if autoFix then write_for zone observed d else [])"
  unfolding check_record_def write_for_def classify_def differs_def attempt_def
  by (simp add: find_existing_first_match split: option.splits)

lemma calls_check_records:
  "map fst (snd (check_records autoFix zone ok observed st ds))
     = map fst (snd st) @ (if autoFix then concat (map (write_for zone observed) ds) else [])"
  by (induction ds arbitrary: st) (simp_all add: calls_check_record)

lemma listDnsRecords_resolved:
  "js_or zoneId (config_zoneId r) = Some zone \<Longrightarrow> zone \<noteq> [] \<Longrightarrow>
   listDnsRecords r (Some zone) = listDnsRecords r zoneId"
  unfolding listDnsRecords_def with_zone_def js_or_def by simp

lemma validate_Inl:
  "listDnsRecords r zoneId = Inl e \<Longrightarrow> validateAndFixDnsRecords r ds zoneId autoFix = Inl e"
  unfolding validateAndFixDnsRecords_def
  by (auto simp: with_zone_def listDnsRecords_def js_or_def split: option.splits if_splits)

lemma validate_Inr:
  assumes "listDnsRecords r zoneId = Inr observed"
  shows "\<exists>zone tr. validateAndFixDnsRecords r ds zoneId autoFix
           = Inr (\<lparr>valid = (concat (map (issue_for autoFix observed) ds) = []),
                    issues = concat (map (issue_for autoFix observed) ds),
                    fixed = (autoFix \<and> concat (map (issue_for autoFix observed) ds) \<noteq> [])\<rparr>, tr)
         \<and> map fst tr = (if autoFix then concat (map (write_for zone observed) ds) else [])"
proof -
  from assms obtain zone where z: "js_or zoneId (config_zoneId r) = Some zone" "zone \<noteq> []"
    unfolding listDnsRecords_def with_zone_def by (auto split: option.splits if_splits)
  then have l: "listDnsRecords r (Some zone) = Inr observed"
    using assms listDnsRecords_resolved by simp
  show ?thesis
    unfolding validateAndFixDnsRecords_def with_zone_def
    using z l by (auto simp: Let_def fst_check_records calls_check_records)
qed

lemma validate_resolved:
  assumes "js_or zoneId (config_zoneId r) = Some zone" "zone \<noteq> []"
  shows "validateAndFixDnsRecords r ds zoneId autoFix =
           (case get_dns_records r zone of
              Inl e \<Rightarrow> Inl e
            | Inr observed \<Rightarrow>
                Inr (\<lparr>valid = (concat (map (issue_for autoFix observed) ds) = []),
                      issues = concat (map (issue_for autoFix observed) ds),
                      fixed = (autoFix \<and> concat (map (issue_for autoFix observed) ds) \<noteq> [])\<rparr>,
                     snd (check_records autoFix zone (write_ok r) observed ([], []) ds)))"
  unfolding validateAndFixDnsRecords_def with_zone_def listDnsRecords_def
  using assms by (simp add: js_or_def Let_def fst_check_records split: sum.splits)

lemma validate_unresolved:
  assumes "js_or zoneId (config_zoneId r) = None \<or> js_or zoneId (config_zoneId r) = Some []"
  shows "validateAndFixDnsRecords r ds zoneId autoFix = Inl (Error ''Zone ID is required'')"
  unfolding validateAndFixDnsRecords_def with_zone_def using assms by auto

lemma issue_for_length: "length (issue_for autoFix observed d) \<le> 1"
  unfolding issue_for_def by (simp split: classification.splits option.splits)

lemma issue_for_types:
  "map i_type (issue_for autoFix observed d) =
     (case classify observed d of Unflagged \<Rightarrow> [] | Missing \<Rightarrow> [missing] | Incorrect \<Rightarrow> [incorrect])"
  unfolding issue_for_def classify_def by (simp split: classification.splits option.splits)

lemma first_match_find:
  "first_match observed d = List.find (\<lambda>ob. key_match ob d) observed"
  unfolding first_match_def by (induction observed) auto

lemma first_match_None: "first_match observed d = None \<longleftrightarrow> \<not> (\<exists>ob \<in> set observed. key_match ob d)"
  by (auto simp: first_match_find find_None_iff)

lemma first_match_Some:
  "first_match observed d = Some m \<longleftrightarrow>
     (\<exists>i < length observed. observed ! i = m \<and> key_match m d
        \<and> (\<forall>j < i. \<not> key_match (observed ! j) d))"
  by (auto simp: first_match_find find_Some_iff)

lemma issue_for_view:
  "map issue_view (issue_for autoFix observed d) = map issue_view (issue_for False observed d)"
  unfolding issue_for_def issue_view_def by (simp split: classification.splits option.splits)

lemma issues_view:
  "map issue_view (concat (map (issue_for autoFix observed) ds))
     = map issue_view (concat (map (issue_for False observed) ds))"
  by (induction ds) (simp_all add: issue_for_view [of autoFix])

lemma check_records_no_fix: "snd (check_records False zone ok observed st ds) = snd st"
  by (induction ds arbitrary: st) (simp_all add: check_record_def split: option.splits)

text \<open>
  Claim C2, amended. Whenever the observed records can be read, the reconciliation returns,
  and its issue list is the concatenation, in the order of the desired records, of at most
  one issue for each of them: a \<open>missing\<close> issue when no observed record has the name and
  type of the desired record; an \<open>incorrect\<close> issue when the first observed record with
  that name and type differs in content, or its proxied flag differs from the desired one
  defaulted to false, or the desired ttl is set to a value other than 0 and differs from
  the observed ttl; no issue otherwise. (A desired ttl of 0 is never compared.)
\<close>

theorem reconcile_classification:
  assumes "listDnsRecords r zoneId = Inr observed"
  shows "(\<exists>res tr. validateAndFixDnsRecords r desired zoneId autoFix = Inr (res, tr)
            \<and> issues res = concat (map (issue_for autoFix observed) desired))
         \<and> (\<forall>d. length (issue_for autoFix observed d) \<le> 1
              \<and> map i_type (issue_for autoFix observed d) =
                  (case classify observed d of
                     Unflagged \<Rightarrow> [] | Missing \<Rightarrow> [missing] | Incorrect \<Rightarrow> [incorrect])
              \<and> (classify observed d = Missing
                    \<longleftrightarrow> \<not> (\<exists>ob \<in> set observed. r_name ob = e_name d \<and> r_type ob = e_type d))
              \<and> (classify observed d = Incorrect
                    \<longleftrightarrow> (\<exists>i < length observed.
                           r_name (observed ! i) = e_name d \<and> r_type (observed ! i) = e_type d
                           \<and> (\<forall>j < i. \<not> (r_name (observed ! j) = e_name d
                                           \<and> r_type (observed ! j) = e_type d))
                           \<and> (r_content (observed ! i) \<noteq> e_content d
                                \<or> r_proxied (observed ! i) \<noteq> (e_proxied d = Some True)
                                \<or> (\<exists>t. e_ttl d = Some t \<and> t \<noteq> 0 \<and> r_ttl (observed ! i) \<noteq> t)))))"
proof -
  obtain zone where z: "js_or zoneId (config_zoneId r) = Some zone" "zone \<noteq> []"
    and g: "get_dns_records r zone = Inr observed"
    using assms unfolding listDnsRecords_def with_zone_def
    by (auto split: option.splits if_splits)
  have run: "\<exists>res tr. validateAndFixDnsRecords r desired zoneId autoFix = Inr (res, tr)
            \<and> issues res = concat (map (issue_for autoFix observed) desired)"
    by (simp add: validate_resolved [OF z] g)
  have miss: "classify observed d = Missing
                \<longleftrightarrow> \<not> (\<exists>ob \<in> set observed. r_name ob = e_name d \<and> r_type ob = e_type d)" for d
  proof -
    have "classify observed d = Missing \<longleftrightarrow> first_match observed d = None"
      unfolding classify_def by (simp split: option.splits)
    then show ?thesis by (simp add: first_match_None key_match_def)
  qed
  have inc: "classify observed d = Incorrect
                    \<longleftrightarrow> (\<exists>i < length observed.
                           r_name (observed ! i) = e_name d \<and> r_type (observed ! i) = e_type d
                           \<and> (\<forall>j < i. \<not> (r_name (observed ! j) = e_name d
                                           \<and> r_type (observed ! j) = e_type d))
                           \<and> (r_content (observed ! i) \<noteq> e_content d
                                \<or> r_proxied (observed ! i) \<noteq> (e_proxied d = Some True)
                                \<or> (\<exists>t. e_ttl d = Some t \<and> t \<noteq> 0 \<and> r_ttl (observed ! i) \<noteq> t)))"
    (is "?L \<longleftrightarrow> ?R") for d
  proof
    assume ?L
    then obtain m where m: "first_match observed d = Some m"
      and bad: "r_content m \<noteq> e_content d
             \<or> r_proxied m \<noteq> (case e_proxied d of None \<Rightarrow> False | Some b \<Rightarrow> b)
             \<or> (case e_ttl d of None \<Rightarrow> False | Some t \<Rightarrow> t \<noteq> 0 \<and> r_ttl m \<noteq> t)"
      unfolding classify_def by (auto split: option.splits if_splits)
    from m obtain i where i: "i < length observed" "observed ! i = m" "key_match m d"
      "\<forall>j < i. \<not> key_match (observed ! j) d"
      unfolding first_match_Some by blast
    from bad have "r_content m \<noteq> e_content d \<or> r_proxied m \<noteq> (e_proxied d = Some True)
                                \<or> (\<exists>t. e_ttl d = Some t \<and> t \<noteq> 0 \<and> r_ttl m \<noteq> t)"
      by (auto split: option.splits)
    with i show ?R unfolding key_match_def by blast
  next
    assume ?R
    then obtain i where i: "i < length observed" "key_match (observed ! i) d"
      "\<forall>j < i. \<not> key_match (observed ! j) d"
      and bad: "r_content (observed ! i) \<noteq> e_content d
                                \<or> r_proxied (observed ! i) \<noteq> (e_proxied d = Some True)
                                \<or> (\<exists>t. e_ttl d = Some t \<and> t \<noteq> 0 \<and> r_ttl (observed ! i) \<noteq> t)"
      unfolding key_match_def by blast
    from i have m: "first_match observed d = Some (observed ! i)"
      unfolding first_match_Some by blast
    from bad show ?L unfolding classify_def by (auto simp: m split: option.splits)
  qed
  show ?thesis
    using run miss inc issue_for_length issue_for_types by blast
qed

lemma dns_remote_list: "listDnsRecords (dns_remote records) None = Inr records"
  by (simp add: dns_remote_def remote_with_def listDnsRecords_def with_zone_def js_or_def)

lemma dns_remote_zone: "js_or None (config_zoneId (dns_remote records)) = Some ''zone-1''"
  by (simp add: dns_remote_def remote_with_def js_or_def)

lemma dns_remote_get: "get_dns_records (dns_remote records) z = Inr records"
  by (simp add: dns_remote_def remote_with_def)

lemma validate_dns_remote:
  "validateAndFixDnsRecords (dns_remote records) ds None autoFix =
     Inr (\<lparr>valid = (concat (map (issue_for autoFix records) ds) = []),
           issues = concat (map (issue_for autoFix records) ds),
           fixed = (autoFix \<and> concat (map (issue_for autoFix records) ds) \<noteq> [])\<rparr>,
          snd (check_records autoFix ''zone-1'' (\<lambda>n. True) records ([], []) ds))"
proof -
  have ok: "write_ok (dns_remote records) = (\<lambda>n. True)"
    by (simp add: dns_remote_def remote_with_def)
  show ?thesis
    using validate_resolved [OF dns_remote_zone, of records ds autoFix]
    by (simp add: dns_remote_get ok)
qed

lemma check_record_no_fix: "snd (check_record False zone ok observed st d) = snd st"
  by (simp add: check_record_def split: option.splits)

theorem reconcile_classification_witness:
  "listDnsRecords (dns_remote [observed_other]) None = Inr [observed_other]
   \<and> (\<exists>res tr. validateAndFixDnsRecords (dns_remote [observed_other])
                   [a_record ''192.0.2.1'' 300] None False = Inr (res, tr)
              \<and> map i_type (issues res) = [missing])"
proof -
  have h: "listDnsRecords (dns_remote [observed_other]) None = Inr [observed_other]"
    by (rule dns_remote_list)
  have c: "classify [observed_other] (a_record ''192.0.2.1'' 300) = Missing"
    by (simp add: classify_def first_match_def key_match_def observed_other_def a_record_def)
  from reconcile_classification [OF h, of "[a_record ''192.0.2.1'' 300]" False]
  obtain res tr where
    r: "validateAndFixDnsRecords (dns_remote [observed_other])
          [a_record ''192.0.2.1'' 300] None False = Inr (res, tr)"
    and i: "issues res = concat (map (issue_for False [observed_other]) [a_record ''192.0.2.1'' 300])"
    by blast
  from i have "map i_type (issues res) = [missing]"
    by (simp add: issue_for_types c)
  with h r show ?thesis by auto
qed

text \<open>
  The claim as stated fails for a desired ttl of 0: the only observed record has the name
  and type of the desired record, the desired ttl is set and differs from the observed ttl
  of 300, and no issue is recorded.
\<close>

theorem ttl_zero_counterexample:
  "r_name (observed_a ''r1'' ''192.0.2.1'' 300) = e_name (a_record ''192.0.2.1'' 0)
   \<and> r_type (observed_a ''r1'' ''192.0.2.1'' 300) = e_type (a_record ''192.0.2.1'' 0)
   \<and> e_ttl (a_record ''192.0.2.1'' 0) = Some 0
   \<and> r_ttl (observed_a ''r1'' ''192.0.2.1'' 300) \<noteq> 0
   \<and> validateAndFixDnsRecords (dns_remote [observed_a ''r1'' ''192.0.2.1'' 300])
        [a_record ''192.0.2.1'' 0] None False
      = Inr (\<lparr>valid = True, issues = [], fixed = False\<rparr>, [])"
proof -
  have c: "issue_for False [observed_a ''r1'' ''192.0.2.1'' 300] (a_record ''192.0.2.1'' 0) = []"
    by (simp add: issue_for_def classify_def first_match_def key_match_def observed_a_def
        a_record_def)
  show ?thesis
    by (simp add: validate_dns_remote c check_record_no_fix)
       (simp add: observed_a_def a_record_def)
qed

subsection \<open>The flags of the result\<close>

lemma listDnsRecords_write_ok:
  "listDnsRecords (r\<lparr>write_ok := ok\<rparr>) zoneId = listDnsRecords r zoneId"
  by (simp add: listDnsRecords_def with_zone_def)

lemma validate_returns:
  "validateAndFixDnsRecords r ds zoneId autoFix = Inr (res, tr)
     \<Longrightarrow> \<exists>observed. listDnsRecords r zoneId = Inr observed"
  by (cases "listDnsRecords r zoneId") (simp_all add: validate_Inl)

text \<open>
  Claim C3. Whenever the reconciliation returns, \<open>valid\<close> says that the returned issue list
  is empty and \<open>fixed\<close> says that auto-fix is on and the list is not; the issue list is the
  classification of the records observed before any write, the same result is returned
  whatever the outcomes of the writes are, and a run without auto-fix reports the same
  issues (up to their \<open>action\<close>) and the same \<open>valid\<close>.
\<close>

theorem reconcile_flags:
  assumes "validateAndFixDnsRecords r desired zoneId autoFix = Inr (res, tr)"
  shows "valid res = (issues res = [])
         \<and> fixed res = (autoFix \<and> issues res \<noteq> [])
         \<and> (\<exists>observed. listDnsRecords r zoneId = Inr observed
               \<and> issues res = concat (map (issue_for autoFix observed) desired))
         \<and> (\<forall>ok. \<exists>tr'. validateAndFixDnsRecords (r\<lparr>write_ok := ok\<rparr>) desired zoneId autoFix
                         = Inr (res, tr')
                       \<and> map fst tr' = map fst tr)
         \<and> (\<exists>res0. validateAndFixDnsRecords r desired zoneId False = Inr (res0, [])
               \<and> map issue_view (issues res0) = map issue_view (issues res)
               \<and> valid res0 = valid res)"
proof -
  from validate_returns [OF assms] obtain observed
    where obs: "listDnsRecords r zoneId = Inr observed" by blast
  let ?is = "concat (map (issue_for autoFix observed) desired)"
  let ?res = "\<lparr>valid = (?is = []), issues = ?is, fixed = (autoFix \<and> ?is \<noteq> [])\<rparr>"
  from validate_Inr [OF obs, of desired autoFix] assms obtain zone
    where res: "res = ?res"
      and tr: "map fst tr = (if autoFix then concat (map (write_for zone observed) desired) else [])"
    by auto
  have flags: "valid res = (issues res = []) \<and> fixed res = (autoFix \<and> issues res \<noteq> [])"
    by (simp add: res)
  have cls: "\<exists>observed. listDnsRecords r zoneId = Inr observed
               \<and> issues res = concat (map (issue_for autoFix observed) desired)"
    using obs by (simp add: res)
  have indep: "\<exists>tr'. validateAndFixDnsRecords (r\<lparr>write_ok := ok\<rparr>) desired zoneId autoFix
                         = Inr (res, tr') \<and> map fst tr' = map fst tr" for ok
  proof -
    obtain z where z: "js_or zoneId (config_zoneId r) = Some z" "z \<noteq> []"
      and g: "get_dns_records r z = Inr observed"
      using obs unfolding listDnsRecords_def with_zone_def
      by (auto split: option.splits if_splits)
    have z': "js_or zoneId (config_zoneId (r\<lparr>write_ok := ok\<rparr>)) = Some z" using z by simp
    have "validateAndFixDnsRecords r desired zoneId autoFix
            = Inr (?res, snd (check_records autoFix z (write_ok r) observed ([], []) desired))"
      using validate_resolved [OF z, of desired autoFix] g by simp
    with assms have t: "tr = snd (check_records autoFix z (write_ok r) observed ([], []) desired)"
      by simp
    have "validateAndFixDnsRecords (r\<lparr>write_ok := ok\<rparr>) desired zoneId autoFix
            = Inr (?res, snd (check_records autoFix z ok observed ([], []) desired))"
      using validate_resolved [OF z' z(2), of desired autoFix] g by simp
    then show ?thesis
      by (simp add: res t calls_check_records)
  qed
  have nofix: "\<exists>res0. validateAndFixDnsRecords r desired zoneId False = Inr (res0, [])
               \<and> map issue_view (issues res0) = map issue_view (issues res)
               \<and> valid res0 = valid res"
  proof -
    obtain z where z: "js_or zoneId (config_zoneId r) = Some z" "z \<noteq> []"
      and g: "get_dns_records r z = Inr observed"
      using obs unfolding listDnsRecords_def with_zone_def
      by (auto split: option.splits if_splits)
    define is0 where "is0 = concat (map (issue_for False observed) desired)"
    define is1 where "is1 = concat (map (issue_for autoFix observed) desired)"
    have v: "map issue_view is0 = map issue_view is1"
      unfolding is0_def is1_def by (rule issues_view [symmetric])
    then have e: "(is0 = []) = (is1 = [])"
      by (metis map_is_Nil_conv)
    have r1: "res = \<lparr>valid = (is1 = []), issues = is1, fixed = (autoFix \<and> is1 \<noteq> [])\<rparr>"
      unfolding is1_def by (rule res)
    have "validateAndFixDnsRecords r desired zoneId False
            = Inr (\<lparr>valid = (is0 = []), issues = is0, fixed = False\<rparr>, [])"
      unfolding is0_def
      using validate_resolved [OF z, of desired False] g
      by (simp add: check_records_no_fix del: concat_eq_Nil_conv)
    then show ?thesis using v e by (simp add: r1)
  qed
  from flags cls indep nofix show ?thesis by blast
qed

theorem reconcile_flags_witness:
  "validateAndFixDnsRecords (dns_remote [observed_a ''r1'' ''192.0.2.9'' 300])
     [a_record ''192.0.2.1'' 300] None True
     = Inr (\<lparr>valid = False,
             issues = [\<lparr>i_type = incorrect,
                        i_record = existing_record (observed_a ''r1'' ''192.0.2.9'' 300),
                        i_expected = Some (a_record ''192.0.2.1'' 300),
                        i_action = ''UPDATE''\<rparr>],
             fixed = True\<rparr>,
            [(updateDnsRecord ''r1'' (a_record ''192.0.2.1'' 300) ''zone-1'', True)])
   \<and> (\<exists>tr'. validateAndFixDnsRecords
               ((dns_remote [observed_a ''r1'' ''192.0.2.9'' 300])\<lparr>write_ok := \<lambda>n. False\<rparr>)
               [a_record ''192.0.2.1'' 300] None True
             = Inr (\<lparr>valid = False,
                     issues = [\<lparr>i_type = incorrect,
                        i_record = existing_record (observed_a ''r1'' ''192.0.2.9'' 300),
                        i_expected = Some (a_record ''192.0.2.1'' 300),
                        i_action = ''UPDATE''\<rparr>],
                     fixed = True\<rparr>, tr'))"
proof -
  have c: "issue_for True [observed_a ''r1'' ''192.0.2.9'' 300] (a_record ''192.0.2.1'' 300)
           = [\<lparr>i_type = incorrect,
                        i_record = existing_record (observed_a ''r1'' ''192.0.2.9'' 300),
                        i_expected = Some (a_record ''192.0.2.1'' 300),
                        i_action = ''UPDATE''\<rparr>]"
    by (simp add: issue_for_def classify_def first_match_def key_match_def observed_a_def
        a_record_def)
  have f: "find_existing [observed_a ''r1'' ''192.0.2.9'' 300] (a_record ''192.0.2.1'' 300)
            = Some (observed_a ''r1'' ''192.0.2.9'' 300)"
    by (simp add: find_existing_def observed_a_def a_record_def)
  have d: "differs (observed_a ''r1'' ''192.0.2.9'' 300) (a_record ''192.0.2.1'' 300)"
    by (simp add: differs_def observed_a_def a_record_def)
  have i: "r_id (observed_a ''r1'' ''192.0.2.9'' 300) = ''r1''"
    by (simp add: observed_a_def)
  have h: "validateAndFixDnsRecords (dns_remote [observed_a ''r1'' ''192.0.2.9'' 300])
     [a_record ''192.0.2.1'' 300] None True
     = Inr (\<lparr>valid = False,
             issues = [\<lparr>i_type = incorrect,
                        i_record = existing_record (observed_a ''r1'' ''192.0.2.9'' 300),
                        i_expected = Some (a_record ''192.0.2.1'' 300),
                        i_action = ''UPDATE''\<rparr>],
             fixed = True\<rparr>,
            [(updateDnsRecord ''r1'' (a_record ''192.0.2.1'' 300) ''zone-1'', True)])"
    by (simp add: validate_dns_remote c check_record_def f d i attempt_def)
  from reconcile_flags [OF h] h show ?thesis by blast
qed

subsection \<open>Idempotence\<close>

lemma same_record_unflagged:
  "first_match observed d = Some m \<Longrightarrow> same_record m d \<Longrightarrow> classify observed d = Unflagged"
  unfolding classify_def same_record_def by (cases "e_ttl d") simp_all

lemma unflagged_no_issue:
  assumes "first_matches_exactly desired observed" "d \<in> set desired"
  shows "classify observed d = Unflagged"
proof -
  from assms have "case first_match observed d of None \<Rightarrow> False | Some m \<Rightarrow> same_record m d"
    unfolding first_matches_exactly_def by (simp add: list_all_iff)
  then obtain m where "first_match observed d = Some m" "same_record m d"
    by (cases "first_match observed d") simp_all
  then show ?thesis by (rule same_record_unflagged)
qed

lemma unflagged_issues:
  assumes "\<forall>d \<in> set ds. classify observed d = Unflagged"
  shows "concat (map (issue_for autoFix observed) ds) = []"
  using assms by (simp add: issue_for_def)

lemma unflagged_writes:
  assumes "\<forall>d \<in> set ds. classify observed d = Unflagged"
  shows "concat (map (write_for zone observed) ds) = []"
  using assms by (simp add: write_for_def)

text \<open>
  Claim C4, amended. If the observed records can be read and, for every desired record, the
  first observed record with its name and type has the same content, the same proxied flag
  (the desired one defaulted to false) and, where the desired ttl is set, the same ttl, then
  the reconciliation with auto-fix returns an empty issue list, \<open>valid\<close>, not \<open>fixed\<close>, and
  attempts no create or update call.
\<close>

theorem reconcile_idempotent:
  assumes "listDnsRecords r zoneId = Inr observed"
      and "first_matches_exactly desired observed"
  shows "validateAndFixDnsRecords r desired zoneId True
           = Inr (\<lparr>valid = True, issues = [], fixed = False\<rparr>, [])"
proof -
  have u: "\<forall>d \<in> set desired. classify observed d = Unflagged"
    using assms(2) unflagged_no_issue by blast
  from validate_Inr [OF assms(1), of desired True] obtain zone tr
    where run: "validateAndFixDnsRecords r desired zoneId True
                 = Inr (\<lparr>valid = (concat (map (issue_for True observed) desired) = []),
                    issues = concat (map (issue_for True observed) desired),
                    fixed = (True \<and> concat (map (issue_for True observed) desired) \<noteq> [])\<rparr>, tr)"
      and calls: "map fst tr = (if True then concat (map (write_for zone observed) desired) else [])"
    by blast
  have "tr = []"
    using calls unflagged_writes [OF u] by simp
  then show ?thesis
    using run unflagged_issues [OF u, of True] by (simp del: concat_eq_Nil_conv)
qed

theorem reconcile_idempotent_witness:
  "listDnsRecords (dns_remote [observed_other, observed_a ''r1'' ''192.0.2.1'' 300]) None
     = Inr [observed_other, observed_a ''r1'' ''192.0.2.1'' 300]
   \<and> first_matches_exactly [a_record ''192.0.2.1'' 300]
        [observed_other, observed_a ''r1'' ''192.0.2.1'' 300]
   \<and> validateAndFixDnsRecords (dns_remote [observed_other, observed_a ''r1'' ''192.0.2.1'' 300])
        [a_record ''192.0.2.1'' 300] None True
      = Inr (\<lparr>valid = True, issues = [], fixed = False\<rparr>, [])"
proof -
  have h: "listDnsRecords (dns_remote [observed_other, observed_a ''r1'' ''192.0.2.1'' 300]) None
     = Inr [observed_other, observed_a ''r1'' ''192.0.2.1'' 300]"
    by (rule dns_remote_list)
  have m: "first_matches_exactly [a_record ''192.0.2.1'' 300]
        [observed_other, observed_a ''r1'' ''192.0.2.1'' 300]"
    by (simp add: first_matches_exactly_def first_match_def key_match_def same_record_def
        observed_other_def observed_a_def a_record_def)
  from reconcile_idempotent [OF h m] h m show ?thesis by simp
qed

text \<open>
  The claim as stated fails when two desired records share a name and type: the observed
  set holds a record equal to each desired record in all five fields, yet the second
  desired record is compared with the first observed record of that key, reported as
  \<open>incorrect\<close>, and an update of that observed record is attempted.
\<close>

theorem duplicate_key_counterexample:
  "matches_exactly [a_record ''192.0.2.1'' 300, a_record ''192.0.2.2'' 300]
     [observed_a ''r1'' ''192.0.2.1'' 300, observed_a ''r2'' ''192.0.2.2'' 300]
   \<and> validateAndFixDnsRecords
        (dns_remote [observed_a ''r1'' ''192.0.2.1'' 300, observed_a ''r2'' ''192.0.2.2'' 300])
        [a_record ''192.0.2.1'' 300, a_record ''192.0.2.2'' 300] None True
      = Inr (\<lparr>valid = False,
               issues = [\<lparr>i_type = incorrect,
                          i_record = existing_record (observed_a ''r1'' ''192.0.2.1'' 300),
                          i_expected = Some (a_record ''192.0.2.2'' 300),
                          i_action = ''UPDATE''\<rparr>],
               fixed = True\<rparr>,
             [(updateDnsRecord ''r1'' (a_record ''192.0.2.2'' 300) ''zone-1'', True)])"
proof -
  let ?obs = "[observed_a ''r1'' ''192.0.2.1'' 300, observed_a ''r2'' ''192.0.2.2'' 300]"
  have m: "matches_exactly [a_record ''192.0.2.1'' 300, a_record ''192.0.2.2'' 300] ?obs"
    by (simp add: matches_exactly_def observed_a_def a_record_def)
  have c1: "issue_for True ?obs (a_record ''192.0.2.1'' 300) = []"
    by (simp add: issue_for_def classify_def first_match_def key_match_def observed_a_def
        a_record_def)
  have c2: "issue_for True ?obs (a_record ''192.0.2.2'' 300)
           = [\<lparr>i_type = incorrect,
                          i_record = existing_record (observed_a ''r1'' ''192.0.2.1'' 300),
                          i_expected = Some (a_record ''192.0.2.2'' 300),
                          i_action = ''UPDATE''\<rparr>]"
    by (simp add: issue_for_def classify_def first_match_def key_match_def observed_a_def
        a_record_def)
  have f1: "find_existing ?obs (a_record ''192.0.2.1'' 300)
            = Some (observed_a ''r1'' ''192.0.2.1'' 300)"
    by (simp add: find_existing_def observed_a_def a_record_def)
  have f2: "find_existing ?obs (a_record ''192.0.2.2'' 300)
            = Some (observed_a ''r1'' ''192.0.2.1'' 300)"
    by (simp add: find_existing_def observed_a_def a_record_def)
  have d1: "\<not> differs (observed_a ''r1'' ''192.0.2.1'' 300) (a_record ''192.0.2.1'' 300)"
    by (simp add: differs_def observed_a_def a_record_def)
  have d2: "differs (observed_a ''r1'' ''192.0.2.1'' 300) (a_record ''192.0.2.2'' 300)"
    by (simp add: differs_def observed_a_def a_record_def)
  have i: "r_id (observed_a ''r1'' ''192.0.2.1'' 300) = ''r1''"
    by (simp add: observed_a_def)
  have "validateAndFixDnsRecords (dns_remote ?obs)
        [a_record ''192.0.2.1'' 300, a_record ''192.0.2.2'' 300] None True
      = Inr (\<lparr>valid = False,
               issues = [\<lparr>i_type = incorrect,
                          i_record = existing_record (observed_a ''r1'' ''192.0.2.1'' 300),
                          i_expected = Some (a_record ''192.0.2.2'' 300),
                          i_action = ''UPDATE''\<rparr>],
               fixed = True\<rparr>,
             [(updateDnsRecord ''r1'' (a_record ''192.0.2.2'' 300) ''zone-1'', True)])"
    by (simp add: validate_dns_remote c1 c2 check_record_def f1 f2 d1 d2 i attempt_def)
  with m show ?thesis by simp
qed

subsection \<open>Observed records without a desired key\<close>

lemma first_match_only_desired:
  assumes "d \<in> set desired"
  shows "first_match (only_desired_keys desired observed) d = first_match observed d"
proof -
  have "filter (\<lambda>ob. key_match ob d) (only_desired_keys desired observed)
          = filter (\<lambda>ob. key_match ob d) observed"
    unfolding only_desired_keys_def using assms
    by (auto simp: list_ex_iff intro: filter_cong)
  then show ?thesis unfolding first_match_def by simp
qed

lemma check_record_only_desired:
  assumes "d \<in> set desired"
  shows "check_record autoFix zone ok (only_desired_keys desired observed) st d
           = check_record autoFix zone ok observed st d"
  unfolding check_record_def
  by (simp add: find_existing_first_match first_match_only_desired [OF assms])

lemma check_records_only_desired:
  assumes "set ds \<subseteq> set desired"
  shows "check_records autoFix zone ok (only_desired_keys desired observed) st ds
           = check_records autoFix zone ok observed st ds"
  using assms by (induction ds arbitrary: st) (simp_all add: check_record_only_desired)

lemma issue_for_not_extra: "i \<in> set (issue_for autoFix observed d) \<Longrightarrow> i_type i \<noteq> extra"
  unfolding issue_for_def by (auto split: classification.splits option.splits)

text \<open>
  Claim C9. Every issue the reconciliation returns has kind \<open>missing\<close> or \<open>incorrect\<close>, never
  \<open>extra\<close>; and the observed records whose name and type appear in no desired record have
  no influence at all: with them removed from what the remote returns, the result and the
  write calls are the same.
\<close>

theorem reconcile_never_extra:
  "(\<forall>res tr. validateAndFixDnsRecords r desired zoneId autoFix = Inr (res, tr)
        \<longrightarrow> (\<forall>i \<in> set (issues res). i_type i = missing \<or> i_type i = incorrect))
   \<and> validateAndFixDnsRecords (drop_extra desired r) desired zoneId autoFix
       = validateAndFixDnsRecords r desired zoneId autoFix"
proof (intro conjI allI impI)
  fix res tr
  assume run: "validateAndFixDnsRecords r desired zoneId autoFix = Inr (res, tr)"
  from validate_returns [OF run] obtain observed
    where obs: "listDnsRecords r zoneId = Inr observed" by blast
  from validate_Inr [OF obs, of desired autoFix] run
  have "issues res = concat (map (issue_for autoFix observed) desired)" by auto
  then have "\<forall>i \<in> set (issues res). i_type i \<noteq> extra"
    by (auto dest: issue_for_not_extra)
  then show "\<forall>i \<in> set (issues res). i_type i = missing \<or> i_type i = incorrect"
    by (metis issue_type.exhaust)
next
  show "validateAndFixDnsRecords (drop_extra desired r) desired zoneId autoFix
       = validateAndFixDnsRecords r desired zoneId autoFix"
    unfolding validateAndFixDnsRecords_def with_zone_def listDnsRecords_def drop_extra_def
    by (cases "js_or zoneId (config_zoneId r)")
       (auto simp: js_or_def Let_def check_records_only_desired split: sum.splits)
qed

theorem reconcile_never_extra_witness:
  "validateAndFixDnsRecords (dns_remote [observed_other]) [a_record ''192.0.2.1'' 300] None False
     = Inr (\<lparr>valid = False,
             issues = [\<lparr>i_type = missing,
                        i_record = expected_record (a_record ''192.0.2.1'' 300),
                        i_expected = None, i_action = ''REQUIRES_CREATION''\<rparr>],
             fixed = False\<rparr>, [])
   \<and> only_desired_keys [a_record ''192.0.2.1'' 300] [observed_other] = []
   \<and> validateAndFixDnsRecords (drop_extra [a_record ''192.0.2.1'' 300] (dns_remote [observed_other]))
        [a_record ''192.0.2.1'' 300] None False
      = validateAndFixDnsRecords (dns_remote [observed_other]) [a_record ''192.0.2.1'' 300]
          None False"
proof -
  have c: "issue_for False [observed_other] (a_record ''192.0.2.1'' 300)
           = [\<lparr>i_type = missing, i_record = expected_record (a_record ''192.0.2.1'' 300),
                i_expected = None, i_action = ''REQUIRES_CREATION''\<rparr>]"
    by (simp add: issue_for_def classify_def first_match_def key_match_def observed_other_def
        a_record_def)
  have h: "validateAndFixDnsRecords (dns_remote [observed_other]) [a_record ''192.0.2.1'' 300]
             None False
     = Inr (\<lparr>valid = False,
             issues = [\<lparr>i_type = missing,
                        i_record = expected_record (a_record ''192.0.2.1'' 300),
                        i_expected = None, i_action = ''REQUIRES_CREATION''\<rparr>],
             fixed = False\<rparr>, [])"
    by (simp add: validate_dns_remote c check_record_no_fix)
  have k: "only_desired_keys [a_record ''192.0.2.1'' 300] [observed_other] = []"
    by (simp add: only_desired_keys_def key_match_def observed_other_def a_record_def)
  from reconcile_never_extra [of "dns_remote [observed_other]" "[a_record ''192.0.2.1'' 300]"
      None False] h k
  show ?thesis by simp
qed

subsection \<open>The simple status aggregation\<close>

lemma aggregate_cases:
  "aggregate svcs =
     (if \<exists>s \<in> set svcs. s_status s = unhealthy then unhealthy
      else if \<exists>s \<in> set svcs. s_status s = degraded then degraded
      else healthy)"
  unfolding aggregate_def Let_def
  by (auto simp: filter_empty_conv)

text \<open>
  Claim C5. The overall status of a list of component results is \<open>unhealthy\<close> if some
  component is unhealthy, otherwise \<open>degraded\<close> if some component is degraded, otherwise
  \<open>healthy\<close>; hence it is the same for any two lists with the same components in another
  order, and the health check applies exactly this to its four services.
\<close>

theorem aggregate_precedence:
  "aggregate svcs =
     (if \<exists>s \<in> set svcs. s_status s = unhealthy then unhealthy
      else if \<exists>s \<in> set svcs. s_status s = degraded then degraded
      else healthy)
   \<and> (mset svcs = mset svcs' \<longrightarrow> aggregate svcs = aggregate svcs')
   \<and> (comprehensiveHealthCheck r = Inr h \<longrightarrow> h_status h = aggregate (values_of (h_services h)))"
proof (intro conjI impI)
  show "aggregate svcs =
     (if \<exists>s \<in> set svcs. s_status s = unhealthy then unhealthy
      else if \<exists>s \<in> set svcs. s_status s = degraded then degraded
      else healthy)"
    by (rule aggregate_cases)
next
  assume "mset svcs = mset svcs'"
  then have "set svcs = set svcs'" by (rule mset_eq_setD)
  then show "aggregate svcs = aggregate svcs'"
    by (simp add: aggregate_cases)
next
  assume "comprehensiveHealthCheck r = Inr h"
  then show "h_status h = aggregate (values_of (h_services h))"
    unfolding comprehensiveHealthCheck_def
    by (auto simp: Let_def split: sum.splits)
qed

theorem aggregate_precedence_witness:
  "mset [svc healthy 2, svc unhealthy 0, svc degraded 0, svc healthy 1]
     = mset [svc degraded 0, svc healthy 1, svc healthy 2, svc unhealthy 0]
   \<and> aggregate [svc healthy 2, svc unhealthy 0, svc degraded 0, svc healthy 1] = unhealthy
   \<and> aggregate [svc degraded 0, svc healthy 1, svc healthy 2, svc unhealthy 0] = unhealthy
   \<and> aggregate [svc healthy 2, svc healthy 3, svc healthy 5, svc degraded 0] = degraded"
proof -
  have m: "mset [svc healthy 2, svc unhealthy 0, svc degraded 0, svc healthy 1]
     = mset [svc degraded 0, svc healthy 1, svc healthy 2, svc unhealthy 0]"
    by (simp add: ac_simps)
  have a: "aggregate [svc healthy 2, svc unhealthy 0, svc degraded 0, svc healthy 1] = unhealthy"
    by (simp add: aggregate_def svc_def)
  have d: "aggregate [svc healthy 2, svc healthy 3, svc healthy 5, svc degraded 0] = degraded"
    by (simp add: aggregate_def svc_def)
  have e: "aggregate [svc healthy 2, svc unhealthy 0, svc degraded 0, svc healthy 1]
             = aggregate [svc degraded 0, svc healthy 1, svc healthy 2, svc unhealthy 0]"
    using aggregate_precedence
      [of "[svc healthy 2, svc unhealthy 0, svc degraded 0, svc healthy 1]"
          "[svc degraded 0, svc healthy 1, svc healthy 2, svc unhealthy 0]"] m
    by blast
  have b: "aggregate [svc degraded 0, svc healthy 1, svc healthy 2, svc unhealthy 0] = unhealthy"
    using a e by (simp only:)
  from m a b d show ?thesis by (intro conjI)
qed

subsection \<open>The health check and its reads\<close>

lemma health_check_Inr:
  assumes "comprehensiveHealthCheck r = Inr h"
  shows "\<exists>workers pages zones.
           listWorkers r = Inr workers \<and> listPagesProjects r = Inr pages \<and> listZones r = Inr zones
           \<and> h_services h = make_services workers pages (or_empty (listDnsRecords r None))
                               (or_empty (listCertificates r None))
           \<and> h_status h = aggregate (values_of (h_services h))"
  using assms unfolding comprehensiveHealthCheck_def
  by (auto simp: Let_def split: sum.splits)

lemma health_check_returns:
  assumes "listWorkers r = Inr workers" "listPagesProjects r = Inr pages" "listZones r = Inr zones"
  shows "\<exists>h. comprehensiveHealthCheck r = Inr h"
  using assms unfolding comprehensiveHealthCheck_def by (simp add: Let_def)

lemma health_check_fails:
  assumes "isl (listWorkers r) \<or> isl (listPagesProjects r) \<or> isl (listZones r)"
  shows "isl (comprehensiveHealthCheck r)"
  using assms unfolding comprehensiveHealthCheck_def
  by (auto simp: Let_def isl_def split: sum.splits)

lemma ssl_service:
  "sv_ssl (make_services workers pages dnsRecords certificates)
     = \<lparr>s_status = (if length certificates > 0 then healthy else degraded),
        s_count = length certificates\<rparr>"
  by (simp add: make_services_def)

text \<open>
  Claim C7. If the read of the workers, of the pages projects or of the zones fails, the
  health check fails as a whole: it returns an error and no component results. If these
  three reads succeed, it returns a full result, and when the read of the certificates
  fails, the certificates component of that result has count 0.
\<close>

theorem health_check_failure_policy:
  "(isl (listWorkers r) \<or> isl (listPagesProjects r) \<or> isl (listZones r)
      \<longrightarrow> isl (comprehensiveHealthCheck r))
   \<and> (\<not> isl (listWorkers r) \<and> \<not> isl (listPagesProjects r) \<and> \<not> isl (listZones r)
      \<longrightarrow> (\<exists>h. comprehensiveHealthCheck r = Inr h
               \<and> (isl (listCertificates r None) \<longrightarrow> s_count (sv_ssl (h_services h)) = 0)))"
proof (intro conjI impI)
  assume "isl (listWorkers r) \<or> isl (listPagesProjects r) \<or> isl (listZones r)"
  then show "isl (comprehensiveHealthCheck r)" by (rule health_check_fails)
next
  assume a: "\<not> isl (listWorkers r) \<and> \<not> isl (listPagesProjects r) \<and> \<not> isl (listZones r)"
  then obtain workers pages zones where
    "listWorkers r = Inr workers" "listPagesProjects r = Inr pages" "listZones r = Inr zones"
    by (cases "listWorkers r"; cases "listPagesProjects r"; cases "listZones r") simp_all
  then obtain h where h: "comprehensiveHealthCheck r = Inr h"
    using health_check_returns by blast
  from health_check_Inr [OF h] obtain ws ps
    where s: "h_services h = make_services ws ps (or_empty (listDnsRecords r None))
                               (or_empty (listCertificates r None))"
    by blast
  have "isl (listCertificates r None) \<longrightarrow> s_count (sv_ssl (h_services h)) = 0"
    by (cases "listCertificates r None") (simp_all add: s ssl_service or_empty_def)
  with h show "\<exists>h. comprehensiveHealthCheck r = Inr h
               \<and> (isl (listCertificates r None) \<longrightarrow> s_count (sv_ssl (h_services h)) = 0)"
    by blast
qed

lemma remote_with_reads:
  "listWorkers (remote_with records workers pages certificates) = workers"
  "listPagesProjects (remote_with records workers pages certificates) = pages"
  "listZones (remote_with records workers pages certificates) = Inr [\<lparr>z_id = ''zone-1''\<rparr>]"
  "listCertificates (remote_with records workers pages certificates) None = certificates"
  "listDnsRecords (remote_with records workers pages certificates) None = Inr records"
  by (simp_all add: remote_with_def listWorkers_def listPagesProjects_def listZones_def
      listCertificates_def listDnsRecords_def with_zone_def js_or_def)

theorem health_check_failure_policy_witness:
  "isl (listPagesProjects pages_down_remote)
   \<and> isl (comprehensiveHealthCheck pages_down_remote)
   \<and> \<not> isl (listWorkers (healthy_remote (Inl (Error ''fetch failed''))))
   \<and> \<not> isl (listPagesProjects (healthy_remote (Inl (Error ''fetch failed''))))
   \<and> \<not> isl (listZones (healthy_remote (Inl (Error ''fetch failed''))))
   \<and> isl (listCertificates (healthy_remote (Inl (Error ''fetch failed''))) None)
   \<and> (\<exists>h. comprehensiveHealthCheck (healthy_remote (Inl (Error ''fetch failed''))) = Inr h
          \<and> s_count (sv_ssl (h_services h)) = 0)"
proof -
  have p: "isl (listPagesProjects pages_down_remote)"
    by (simp add: pages_down_remote_def remote_with_reads)
  have q: "\<not> isl (listWorkers (healthy_remote (Inl (Error ''fetch failed''))))
   \<and> \<not> isl (listPagesProjects (healthy_remote (Inl (Error ''fetch failed''))))
   \<and> \<not> isl (listZones (healthy_remote (Inl (Error ''fetch failed''))))"
    by (simp add: healthy_remote_def remote_with_reads)
  have c: "isl (listCertificates (healthy_remote (Inl (Error ''fetch failed''))) None)"
    by (simp add: healthy_remote_def remote_with_reads)
  from health_check_failure_policy [of pages_down_remote] p
  have 1: "isl (comprehensiveHealthCheck pages_down_remote)" by blast
  from health_check_failure_policy [of "healthy_remote (Inl (Error ''fetch failed''))"] q c
  have 2: "\<exists>h. comprehensiveHealthCheck (healthy_remote (Inl (Error ''fetch failed''))) = Inr h
          \<and> s_count (sv_ssl (h_services h)) = 0" by blast
  from p q c 1 2 show ?thesis by blast
qed

text \<open>
  Claim C10. In every result of the health check the certificates component is \<open>healthy\<close>
  or \<open>degraded\<close>, never \<open>unhealthy\<close>; it is \<open>degraded\<close> exactly when its count, the number of
  certificates read (none when the read fails), is 0. The overall status is \<open>unhealthy\<close>
  only if the workers, pages or DNS component is; when these three are healthy the overall
  status is that of the certificates component.
\<close>

theorem ssl_never_unhealthy:
  assumes "comprehensiveHealthCheck r = Inr h"
  shows "s_status (sv_ssl (h_services h)) \<noteq> unhealthy
         \<and> (s_status (sv_ssl (h_services h)) = degraded \<longleftrightarrow> s_count (sv_ssl (h_services h)) = 0)
         \<and> s_count (sv_ssl (h_services h)) = length (or_empty (listCertificates r None))
         \<and> (h_status h = unhealthy \<longleftrightarrow>
              s_status (sv_workers (h_services h)) = unhealthy
              \<or> s_status (sv_pages (h_services h)) = unhealthy
              \<or> s_status (sv_dns (h_services h)) = unhealthy)
         \<and> (s_status (sv_workers (h_services h)) = healthy
              \<and> s_status (sv_pages (h_services h)) = healthy
              \<and> s_status (sv_dns (h_services h)) = healthy
            \<longrightarrow> h_status h = s_status (sv_ssl (h_services h)))"
proof -
  from health_check_Inr [OF assms] obtain ws ps
    where s: "h_services h = make_services ws ps (or_empty (listDnsRecords r None))
                               (or_empty (listCertificates r None))"
      and a: "h_status h = aggregate (values_of (h_services h))"
    by blast
  show ?thesis
    unfolding a s
    by (simp add: make_services_def values_of_def aggregate_def)
qed

theorem ssl_never_unhealthy_witness:
  "(\<exists>h. comprehensiveHealthCheck (healthy_remote (Inr [])) = Inr h
        \<and> s_status (sv_ssl (h_services h)) = degraded
        \<and> s_count (sv_ssl (h_services h)) = 0
        \<and> h_status h = degraded)"
proof -
  have "listWorkers (healthy_remote (Inr []))
          = Inr [\<lparr>w_name = ''connectree-api''\<rparr>, \<lparr>w_name = ''connectree-api-staging''\<rparr>]"
    and "listPagesProjects (healthy_remote (Inr []))
          = Inr [\<lparr>p_name = ''connectree'', p_domains = Some [''connectree.cc'']\<rparr>]"
    and "listZones (healthy_remote (Inr [])) = Inr [\<lparr>z_id = ''zone-1''\<rparr>]"
    by (simp_all add: healthy_remote_def remote_with_reads)
  from health_check_returns [OF this]
  obtain h where h: "comprehensiveHealthCheck (healthy_remote (Inr [])) = Inr h" by blast
  from health_check_Inr [OF h]
  have s: "h_services h = make_services [\<lparr>w_name = ''connectree-api''\<rparr>, \<lparr>w_name = ''connectree-api-staging''\<rparr>]
            [\<lparr>p_name = ''connectree'', p_domains = Some [''connectree.cc'']\<rparr>] [observed_other] []"
    by (auto simp: healthy_remote_def remote_with_reads or_empty_def)
  have w: "s_status (sv_workers (h_services h)) = healthy
              \<and> s_status (sv_pages (h_services h)) = healthy
              \<and> s_status (sv_dns (h_services h)) = healthy"
    by (simp add: s make_services_def)
  have c: "s_count (sv_ssl (h_services h)) = 0"
    by (simp add: s make_services_def)
  from ssl_never_unhealthy [OF h] w c h show ?thesis by auto
qed

subsection \<open>The strict infrastructure-wide aggregation\<close>

lemma overall_degraded_iff:
  "overall dnsValid n pagesValid workersValid sslValid = degraded \<longleftrightarrow>
     \<not> (dnsValid \<and> pagesValid \<and> workersValid \<and> sslValid)
     \<and> ((\<not> dnsValid \<and> n \<le> 2) \<or> \<not> sslValid)"
  by (auto simp: overall_def)

lemma overall_healthy_iff:
  "overall dnsValid n pagesValid workersValid sslValid = healthy \<longleftrightarrow>
     dnsValid \<and> pagesValid \<and> workersValid \<and> sslValid"
  by (auto simp: overall_def)

lemma expected_all_missing:
  "map i_type (concat (map (issue_for autoFix []) ds)) = map (\<lambda>d. missing) ds"
  by (induction ds) (simp_all add: issue_for_def classify_def first_match_def)

text \<open>
  Claim C1 does not hold of the code. With a zone configured and nothing deployed (no DNS
  record, no pages project, no worker, no certificate) all four checks fail and the DNS
  validation reports five issues, so the claim gives \<open>unhealthy\<close>; the code answers
  \<open>degraded\<close>, because its second branch takes invalid certificates alone as sufficient,
  whatever the other checks say.
\<close>

theorem infrastructure_nothing_deployed:
  "map_sum id
     (\<lambda>p. (inf_dns_valid (fst p), length (inf_dns_issues (fst p)), inf_pages_valid (fst p),
           inf_workers_valid (fst p), inf_ssl_valid (fst p), inf_overall (fst p)))
     (validateConnectreeInfrastructure (dns_remote []) False)
     = Inr (False, 5, False, False, False, degraded)
   \<and> overall True 0 False True False = degraded"
proof -
  have l: "length (concat (map (issue_for False []) expectedDnsRecords)) = 5"
    using arg_cong [OF expected_all_missing [of False expectedDnsRecords], of length]
    by (simp add: expectedDnsRecords_def del: concat_eq_Nil_conv)
  then have n: "concat (map (issue_for False []) expectedDnsRecords) \<noteq> []"
    by (metis length_0_conv zero_neq_numeral)
  have r: "listPagesProjects (dns_remote []) = Inr []" "listWorkers (dns_remote []) = Inr []"
    "listCertificates (dns_remote []) None = Inr []"
    by (simp_all add: dns_remote_def remote_with_reads)
  show ?thesis
    unfolding validateConnectreeInfrastructure_def
    by (simp add: validate_dns_remote r l n or_empty_def overall_def Let_def
        del: concat_eq_Nil_conv)
qed

subsection \<open>The preparation of an environment\<close>

lemma validate_get_workers:
  "validateAndFixDnsRecords (r\<lparr>get_workers := w\<rparr>) ds zoneId autoFix
     = validateAndFixDnsRecords r ds zoneId autoFix"
  by (simp add: validateAndFixDnsRecords_def with_zone_def listDnsRecords_def
      split: option.splits sum.splits)

lemma check_dns_get_workers: "check_dns (r\<lparr>get_workers := w\<rparr>) env opts = check_dns r env opts"
  by (simp add: check_dns_def validate_get_workers)

lemma check_pages_get_workers:
  "check_pages (r\<lparr>get_workers := w\<rparr>) opts n = check_pages r opts n"
  by (simp add: check_pages_def getPagesProject_def split: sum.splits)

lemma check_workers_Inr:
  "listWorkers r = Inr workers \<Longrightarrow>
     wc_issues (check_workers r expectedWorkers) = []
     \<and> wc_warnings (check_workers r expectedWorkers)
         = (let m = filter (\<lambda>name. name \<notin> set (map w_name workers)) expectedWorkers
            in if m = [] then [] else [''Missing workers: '' @ join '', '' m])"
  by (simp add: check_workers_def Let_def)

text \<open>
  Claim C8. The preparation of an environment always returns, with
  \<open>ready = (issues is empty and (validateDns implies dnsValid))\<close>, so the warnings do not
  enter the flag. When the workers can be listed and some expected worker is missing, the
  warning naming the missing workers is in the warning list, and neither the issue list nor
  the ready flag depends on which workers the list holds.
\<close>

theorem prepare_ready:
  "ready (fst (prepareDeploymentEnvironment r env opts))
     = (prep_issues (fst (prepareDeploymentEnvironment r env opts)) = []
        \<and> (truthy (validateDns opts) \<longrightarrow> dns_valid (fst (prepareDeploymentEnvironment r env opts))))
   \<and> (listWorkers r = Inr workers \<and> missing_workers env workers \<noteq> []
        \<longrightarrow> (''Missing workers: '' @ join '', '' (missing_workers env workers))
              \<in> set (prep_warnings (fst (prepareDeploymentEnvironment r env opts))))
   \<and> prep_issues (fst (prepareDeploymentEnvironment (r\<lparr>get_workers := Inr workers\<rparr>) env opts))
       = prep_issues (fst (prepareDeploymentEnvironment (r\<lparr>get_workers := Inr []\<rparr>) env opts))
   \<and> ready (fst (prepareDeploymentEnvironment (r\<lparr>get_workers := Inr workers\<rparr>) env opts))
       = ready (fst (prepareDeploymentEnvironment (r\<lparr>get_workers := Inr []\<rparr>) env opts))"
proof (intro conjI impI)
  show "ready (fst (prepareDeploymentEnvironment r env opts))
     = (prep_issues (fst (prepareDeploymentEnvironment r env opts)) = []
        \<and> (truthy (validateDns opts) \<longrightarrow> dns_valid (fst (prepareDeploymentEnvironment r env opts))))"
    by (simp add: prepareDeploymentEnvironment_def Let_def)
next
  assume a: "listWorkers r = Inr workers \<and> missing_workers env workers \<noteq> []"
  then show "(''Missing workers: '' @ join '', '' (missing_workers env workers))
              \<in> set (prep_warnings (fst (prepareDeploymentEnvironment r env opts)))"
    using check_workers_Inr [of r workers "expected_workers env"]
    by (simp add: prepareDeploymentEnvironment_def Let_def missing_workers_def
        expected_workers_def)
next
  have w: "wc_issues (check_workers (r\<lparr>get_workers := Inr ws\<rparr>) ews) = []" for ws ews
    using check_workers_Inr [of "r\<lparr>get_workers := Inr ws\<rparr>" ws ews]
    by (simp add: listWorkers_def)
  show "prep_issues (fst (prepareDeploymentEnvironment (r\<lparr>get_workers := Inr workers\<rparr>) env opts))
       = prep_issues (fst (prepareDeploymentEnvironment (r\<lparr>get_workers := Inr []\<rparr>) env opts))"
    by (simp add: prepareDeploymentEnvironment_def Let_def check_dns_get_workers
        check_pages_get_workers w)
  show "ready (fst (prepareDeploymentEnvironment (r\<lparr>get_workers := Inr workers\<rparr>) env opts))
       = ready (fst (prepareDeploymentEnvironment (r\<lparr>get_workers := Inr []\<rparr>) env opts))"
    by (simp add: prepareDeploymentEnvironment_def Let_def check_dns_get_workers
        check_pages_get_workers w)
qed

theorem prepare_ready_witness:
  "listWorkers stray_worker_remote = Inr [\<lparr>w_name = ''image-resizer''\<rparr>]
   \<and> missing_workers production [\<lparr>w_name = ''image-resizer''\<rparr>] = [''connectree-api'']
   \<and> ''Missing workers: connectree-api''
        \<in> set (prep_warnings (fst (prepareDeploymentEnvironment stray_worker_remote production
                                      no_options)))
   \<and> prep_issues (fst (prepareDeploymentEnvironment stray_worker_remote production no_options)) = []
   \<and> ready (fst (prepareDeploymentEnvironment stray_worker_remote production no_options))"
proof -
  have l: "listWorkers stray_worker_remote = Inr [\<lparr>w_name = ''image-resizer''\<rparr>]"
    by (simp add: stray_worker_remote_def remote_with_reads)
  have m: "missing_workers production [\<lparr>w_name = ''image-resizer''\<rparr>] = [''connectree-api'']"
    by (simp add: missing_workers_def expected_workers_def)
  have p: "check_pages stray_worker_remote no_options ''connectree''
           = \<lparr>pc_issues = [], pc_exists = True, pc_domains = [''connectree.cc''], pc_trace = []\<rparr>"
    by (simp add: check_pages_def getPagesProject_def stray_worker_remote_def remote_with_def
        or_empty_def)
  have d: "dc_issues (check_dns stray_worker_remote production no_options) = []"
    by (simp add: check_dns_def no_options_def truthy_def)
  have w: "wc_issues (check_workers stray_worker_remote [''connectree-api'']) = []"
    using check_workers_Inr [OF l, of "[''connectree-api'']"] by simp
  have i: "prep_issues (fst (prepareDeploymentEnvironment stray_worker_remote production
             no_options)) = []"
    by (simp add: prepareDeploymentEnvironment_def Let_def p d w)
  have t: "\<not> truthy (validateDns no_options)"
    by (simp add: no_options_def truthy_def)
  from prepare_ready [of stray_worker_remote production no_options
      "[\<lparr>w_name = ''image-resizer''\<rparr>]"] l m i t
  show ?thesis by simp
qed

subsection \<open>The readiness score\<close>

lemma readiness_values:
  "readiness_of (passed_checks a b c d) = 25 * int (length (filter id [a, b, c, d]))"
  by (cases a; cases b; cases c; cases d)
     (simp_all add: readiness_of_def passed_checks_def Math_round_def floor_eq_iff)

lemma round_values:
  "Math_round (of_nat (length (filter id [a, b, c, d])) / 4 * 100)
     = 25 * int (length (filter id [a, b, c, d]))"
  by (cases a; cases b; cases c; cases d) (simp_all add: Math_round_def floor_eq_iff)

lemma report_Inr:
  assumes "generateDeploymentReport r r' env = Inr rep"
  shows "rep_readiness rep
           = readiness_of (passed_checks (rep_dns_valid rep) (rep_pages_exists rep)
               (rep_workers_exists rep) (s_status (rep_ssl rep) = healthy))
         \<and> rep_status rep = status_of (rep_readiness rep)"
  using assms unfolding generateDeploymentReport_def
  by (auto simp: Let_def split: sum.splits)

text \<open>
  Claim C6. In every report the readiness is \<open>round(passedChecks / 4 * 100)\<close>, where
  \<open>passedChecks\<close> counts the four checks of the report that pass (DNS valid, pages project
  exists, workers complete, certificates healthy), which is 25 times that count; the status
  is \<open>ready\<close> from 100 on, \<open>issues\<close> from 75 on and \<open>failed\<close> below; three checks of four give
  75 and \<open>issues\<close>.
\<close>

theorem readiness_score:
  assumes "generateDeploymentReport r r' env = Inr rep"
  shows "rep_readiness rep = Math_round (of_nat (checks_passed rep) / 4 * 100)
         \<and> rep_readiness rep = 25 * int (checks_passed rep)
         \<and> (rep_status rep = ready_status \<longleftrightarrow> rep_readiness rep \<ge> 100)
         \<and> (rep_status rep = issues_status
              \<longleftrightarrow> 75 \<le> rep_readiness rep \<and> rep_readiness rep < 100)
         \<and> (rep_status rep = failed_status \<longleftrightarrow> rep_readiness rep < 75)
         \<and> (checks_passed rep = 3 \<longrightarrow> rep_readiness rep = 75 \<and> rep_status rep = issues_status)"
proof -
  from report_Inr [OF assms]
  have v: "rep_readiness rep = 25 * int (checks_passed rep)"
    and s: "rep_status rep = status_of (rep_readiness rep)"
    by (simp_all add: readiness_values checks_passed_def)
  have r: "rep_readiness rep = Math_round (of_nat (checks_passed rep) / 4 * 100)"
    unfolding v checks_passed_def by (rule round_values [symmetric])
  have st: "(rep_status rep = ready_status \<longleftrightarrow> rep_readiness rep \<ge> 100)
         \<and> (rep_status rep = issues_status
              \<longleftrightarrow> 75 \<le> rep_readiness rep \<and> rep_readiness rep < 100)
         \<and> (rep_status rep = failed_status \<longleftrightarrow> rep_readiness rep < 75)"
    unfolding s status_of_def by auto
  have "checks_passed rep = 3 \<longrightarrow> rep_readiness rep = 75 \<and> rep_status rep = issues_status"
    using v st by auto
  with r v st show ?thesis by blast
qed


lemma validate_remote_with:
  "validateAndFixDnsRecords (remote_with records workers pages certificates) ds None autoFix =
     Inr (\<lparr>valid = (concat (map (issue_for autoFix records) ds) = []),
           issues = concat (map (issue_for autoFix records) ds),
           fixed = (autoFix \<and> concat (map (issue_for autoFix records) ds) \<noteq> [])\<rparr>,
          snd (check_records autoFix ''zone-1'' (\<lambda>n. True) records ([], []) ds))"
proof -
  have z: "js_or None (config_zoneId (remote_with records workers pages certificates))
             = Some ''zone-1''"
    by (simp add: remote_with_def js_or_def)
  have ok: "write_ok (remote_with records workers pages certificates) = (\<lambda>n. True)"
    and g: "get_dns_records (remote_with records workers pages certificates) ''zone-1''
              = Inr records"
    by (simp_all add: remote_with_def)
  show ?thesis
    using validate_resolved [OF z, of ds autoFix] by (simp add: g ok)
qed

lemma report_of_health:
  assumes "comprehensiveHealthCheck r' = Inr h"
  shows "\<exists>rep. generateDeploymentReport r r' env = Inr rep
           \<and> rep_dns_valid rep
               = dns_valid (fst (prepareDeploymentEnvironment r env
                   \<lparr>validateDns = Some True, autoFixDns = Some False, ensurePages = Some False,
                    validateWorkers = Some True\<rparr>))
           \<and> rep_pages_exists rep
               = pages_exists (fst (prepareDeploymentEnvironment r env
                   \<lparr>validateDns = Some True, autoFixDns = Some False, ensurePages = Some False,
                    validateWorkers = Some True\<rparr>))
           \<and> rep_workers_exists rep
               = workers_exists (fst (prepareDeploymentEnvironment r env
                   \<lparr>validateDns = Some True, autoFixDns = Some False, ensurePages = Some False,
                    validateWorkers = Some True\<rparr>))
           \<and> rep_ssl rep = sv_ssl (h_services h)"
  unfolding generateDeploymentReport_def using assms by (simp add: Let_def)

theorem readiness_score_witness:
  "\<exists>rep. generateDeploymentReport (healthy_remote one_certificate)
            (healthy_remote one_certificate) production = Inr rep
         \<and> \<not> rep_dns_valid rep \<and> rep_pages_exists rep \<and> rep_workers_exists rep
         \<and> s_status (rep_ssl rep) = healthy
         \<and> rep_readiness rep = 75 \<and> rep_status rep = issues_status"
proof -
  let ?R = "healthy_remote one_certificate"
  let ?opts = "\<lparr>validateDns = Some True, autoFixDns = Some False, ensurePages = Some False,
                    validateWorkers = Some True\<rparr>"
  have "listWorkers ?R
          = Inr [\<lparr>w_name = ''connectree-api''\<rparr>, \<lparr>w_name = ''connectree-api-staging''\<rparr>]"
    and "listPagesProjects ?R
          = Inr [\<lparr>p_name = ''connectree'', p_domains = Some [''connectree.cc'']\<rparr>]"
    and "listZones ?R = Inr [\<lparr>z_id = ''zone-1''\<rparr>]"
    by (simp_all add: healthy_remote_def remote_with_reads)
  from health_check_returns [OF this]
  obtain h where h: "comprehensiveHealthCheck ?R = Inr h" by blast
  from health_check_Inr [OF h]
  have ssl: "s_status (sv_ssl (h_services h)) = healthy"
    by (auto simp: healthy_remote_def remote_with_reads or_empty_def one_certificate_def
        make_services_def)
  have dns: "\<not> dc_valid (check_dns ?R production ?opts)"
    by (simp add: check_dns_def truthy_def healthy_remote_def validate_remote_with
        getExpectedDnsRecords_def cname_def issue_for_def classify_def first_match_def
        key_match_def observed_other_def)
  have pages: "pc_exists (check_pages ?R ?opts ''connectree'')"
    by (simp add: check_pages_def getPagesProject_def healthy_remote_def remote_with_def
        or_empty_def)
  have workers: "wc_valid (check_workers ?R [''connectree-api''])"
    by (simp add: check_workers_def healthy_remote_def remote_with_reads)
  have prep: "\<not> dns_valid (fst (prepareDeploymentEnvironment ?R production ?opts))"
    "pages_exists (fst (prepareDeploymentEnvironment ?R production ?opts))"
    "workers_exists (fst (prepareDeploymentEnvironment ?R production ?opts))"
    using dns pages workers by (simp_all add: prepareDeploymentEnvironment_def Let_def)
  from report_of_health [OF h, of ?R production] obtain rep
    where rep: "generateDeploymentReport ?R ?R production = Inr rep"
      and f: "\<not> rep_dns_valid rep" "rep_pages_exists rep" "rep_workers_exists rep"
        "s_status (rep_ssl rep) = healthy"
    using prep ssl by auto
  have n: "checks_passed rep = 3"
    using f by (simp add: checks_passed_def)
  from readiness_score [OF rep] n
  have "rep_readiness rep = 75 \<and> rep_status rep = issues_status" by blast
  with rep f show ?thesis by blast
qed

end
